theory Spec2Isabelle
  imports Main "HOL-Library.Multiset" "HOL-Library.FSet"
begin

section \<open>Python exceptions and calling conventions\<close>

text \<open>
  The exceptions the two classes raise. A Python call that may raise returns
  \<open>error + 'a\<close>, with \<open>Inl\<close> for the exception.
\<close>

datatype error = ValueError | TypeError | KeyError | IndexError

text \<open>
  \<open>and_then r f\<close> is the Python expression \<open>f(r)\<close> where evaluating \<open>r\<close> may
  already have raised, as in \<open>Cell((1, 2, 3)).sign((2, 3))\<close>.
\<close>

definition and_then :: "error + 'a \<Rightarrow> ('a \<Rightarrow> error + 'b) \<Rightarrow> error + 'b" where
  "and_then r f = (case r of Inl e \<Rightarrow> Inl e | Inr x \<Rightarrow> f x)"

section \<open>Cell (toponetx/classes/cell.py)\<close>

subsection \<open>Data\<close>

text \<open>
  The sequences a caller passes as \<open>elements\<close>: a Python list or a Python tuple.
  The two behave alike under \<open>list(...)\<close>, \<open>tuple(...)\<close>, \<open>len\<close> and indexing, and
  differ under \<open>+ [x]\<close>, which a tuple refuses with TypeError.
\<close>

datatype 'a pyseq = PyList "'a list" | PyTuple "'a list"

fun items :: "'a pyseq \<Rightarrow> 'a list" where
  "items (PyList xs) = xs"
| "items (PyTuple xs) = xs"

text \<open>
  Modelled from the spec: the base class \<open>Atom\<close> of toponetx/classes/complex.py is
  not among the sources. Following the spec's data model (every entity has its
  constituent node collection, an optional display name and a property map attached
  at construction), an Atom stores \<open>elements\<close>, \<open>name\<close> and the keyword
  properties, and its length is the number of its elements.
\<close>

record ('a, 'v) Atom =
  elements :: "'a list"
  name :: string
  properties :: "string \<rightharpoonup> 'v"

definition Atom_len :: "('a, 'v, 'z) Atom_scheme \<Rightarrow> nat" where
  "Atom_len a = length (elements a)"

text \<open>
  A Cell is an Atom with the fields \<open>_regular\<close> and \<open>_boundary\<close> that
  \<open>Cell.__init__\<close> sets.
\<close>

record ('a, 'v) Cell = "('a, 'v) Atom" +
  regular_flag :: bool
  boundary_list :: "('a \<times> 'a) list"

subsection \<open>Construction\<close>

text \<open>
  \<open>zip_longest(elements, elements[1:] + [elements[0]])\<close>: both arguments have the
  length of \<open>elements\<close>, so no padding ever happens and the pairing is \<open>zip\<close>.
  \<open>elements[0]\<close> raises IndexError on the empty list, which is a branch of the
  callers below; \<open>cyclic_edges\<close> is only used on a non-empty list.
\<close>

definition cyclic_edges :: "'a list \<Rightarrow> ('a \<times> 'a) list" where
  "cyclic_edges es = zip es (tl es @ [hd es])"

text \<open>
  The loop of the regular branch: \<open>_adjdict\<close> maps every source seen so far to its
  target; the result is True exactly when the loop reaches its \<open>raise\<close>
  (\<open>return False\<close> in \<open>is_valid_cell\<close>).
\<close>

fun repeated_source :: "('a \<times> 'a) list \<Rightarrow> ('a \<rightharpoonup> 'a) \<Rightarrow> bool" where
  "repeated_source [] adjdict = False"
| "repeated_source (e # rest) adjdict =
     (if fst e \<in> dom adjdict then True
      else repeated_source rest (adjdict(fst e \<mapsto> snd e)))"

text \<open>The loop of the non-regular branch: True exactly when some \<open>e[0] == e[1]\<close>.\<close>

fun self_loop :: "('a \<times> 'a) list \<Rightarrow> bool" where
  "self_loop [] = False"
| "self_loop (e # rest) = (if fst e = snd e then True else self_loop rest)"

text \<open>
  \<open>Cell.__init__(elements, name, regular, **attr)\<close>. The boundary is built before
  the length is checked, so the empty collection fails in \<open>elements[0]\<close>.
\<close>

definition Cell_init ::
  "'a pyseq \<Rightarrow> string \<Rightarrow> bool \<Rightarrow> (string \<rightharpoonup> 'v) \<Rightarrow> error + ('a, 'v) Cell" where
  "Cell_init elems nm regular attr =
     (let es = items elems in
      if es = [] then Inl IndexError
      else
        let bd = cyclic_edges es;
            self = \<lparr>elements = es, name = nm, properties = attr,
                    regular_flag = regular, boundary_list = bd\<rparr>
        in if length es \<le> 1 then Inl ValueError
           else if regular then
             (if repeated_source bd Map.empty then Inl ValueError else Inr self)
           else
             (if self_loop bd then Inl ValueError else Inr self))"

text \<open>
  \<open>Cell.is_valid_cell(elements, regular)\<close>. Here \<open>elements\<close> is not converted with
  \<open>list(...)\<close>: \<open>elements[1:] + [elements[0]]\<close> first evaluates \<open>elements[0]\<close>
  (IndexError when empty) and then adds a list to the slice, which raises TypeError
  when \<open>elements\<close> is a tuple.
\<close>

definition is_valid_cell :: "'a pyseq \<Rightarrow> bool \<Rightarrow> error + bool" where
  "is_valid_cell elems regular =
     (if items elems = [] then Inl IndexError
      else case elems of
        PyTuple es \<Rightarrow> Inl TypeError
      | PyList es \<Rightarrow>
          (let bd = cyclic_edges es in
           if length es \<le> 1 then Inr False
           else if regular then
             (if repeated_source bd Map.empty then Inr False else Inr True)
           else
             (if self_loop bd then Inr False else Inr True)))"

subsection \<open>Queries\<close>

text \<open>The property \<open>boundary\<close>: a fresh iterator over \<open>_boundary\<close>.\<close>

definition boundary :: "('a, 'v) Cell \<Rightarrow> ('a \<times> 'a) list" where
  "boundary c = boundary_list c"

text \<open>
  What \<open>sign\<close> can be given: an object that is not iterable, an iterable without
  \<open>len\<close> (a generator), or a sized iterable with its items in order.
\<close>

datatype 'a edge_arg = NotIterable | Unsized "'a list" | Sized "'a list"

text \<open>
  \<open>Cell.sign(edge)\<close>: \<open>tuple(edge) in self.boundary\<close> scans the boundary with
  \<open>==\<close>; the forward test comes first.
\<close>

definition sign :: "('a, 'v) Cell \<Rightarrow> 'a edge_arg \<Rightarrow> error + int" where
  "sign c edge =
     (case edge of
        NotIterable \<Rightarrow> Inl TypeError
      | Unsized xs \<Rightarrow> Inl TypeError
      | Sized xs \<Rightarrow>
          (case xs of
             [a, b] \<Rightarrow>
               if (a, b) \<in> set (boundary c) then Inr 1
               else if (b, a) \<in> set (boundary c) then Inr (- 1)
               else Inl KeyError
           | _ \<Rightarrow> Inl ValueError))"

text \<open>\<open>Cell.reverse()\<close>: a new Cell from \<open>self.elements[::-1]\<close>, a tuple.\<close>

definition reverse :: "('a, 'v) Cell \<Rightarrow> error + ('a, 'v) Cell" where
  "reverse c = Cell_init (PyTuple (rev (elements c))) (name c) (regular_flag c) (properties c)"

text \<open>
  What \<open>_are_homotopic\<close> and \<open>is_homotopic_to\<close> can be given as \<open>cell\<close>: a tuple,
  a list, a Cell, or anything else.
\<close>

datatype ('a, 'v) cell_arg =
  ArgTuple "'a list" | ArgList "'a list" | ArgCell "('a, 'v) Cell" | ArgOther

fun arg_seq :: "('a, 'v) cell_arg \<Rightarrow> 'a list" where
  "arg_seq (ArgTuple xs) = xs"
| "arg_seq (ArgList xs) = xs"
| "arg_seq (ArgCell c) = elements c"
| "arg_seq ArgOther = []"

text \<open>\<open>deque.rotate()\<close>: one step to the right, the last item becomes the first.\<close>

definition deque_rotate :: "'a list \<Rightarrow> 'a list" where
  "deque_rotate xs = (if xs = [] then [] else last xs # butlast xs)"

text \<open>
  The loop \<open>for _ in range(size): deq2.rotate(); if deq1 == deq2: return True\<close>,
  followed by \<open>return False\<close>.
\<close>

fun rotation_loop :: "nat \<Rightarrow> 'a list \<Rightarrow> 'a list \<Rightarrow> bool" where
  "rotation_loop 0 deq1 deq2 = False"
| "rotation_loop (Suc k) deq1 deq2 =
     (let deq2' = deque_rotate deq2 in
      if deq1 = deq2' then True else rotation_loop k deq1 deq2')"

text \<open>
  \<open>Cell._are_homotopic(cell1, cell)\<close>. The first argument is a Cell at both call
  sites, so its \<open>isinstance\<close> test is the type of \<open>cell1\<close>. \<open>Counter\<close> equality is
  equality of multisets. \<open>len(cell)\<close> of a Cell is the Atom's length.
\<close>

definition are_homotopic :: "('a, 'v) Cell \<Rightarrow> ('a, 'v) cell_arg \<Rightarrow> error + bool" where
  "are_homotopic cell1 cell =
     (case cell of
        ArgOther \<Rightarrow> Inl TypeError
      | _ \<Rightarrow>
          (let seq = arg_seq cell in
           if Atom_len cell1 \<noteq> length seq then Inr False
           else if mset seq \<noteq> mset (elements cell1) then Inr False
           else Inr (rotation_loop (length seq) (elements cell1) seq)))"

text \<open>
  \<open>Cell.is_homotopic_to(cell)\<close>: Python's \<open>or\<close> evaluates \<open>self.reverse()\<close> only
  when the first test returned False.
\<close>

definition is_homotopic_to :: "('a, 'v) Cell \<Rightarrow> ('a, 'v) cell_arg \<Rightarrow> error + bool" where
  "is_homotopic_to c cell =
     (case are_homotopic c cell of
        Inl e \<Rightarrow> Inl e
      | Inr True \<Rightarrow> Inr True
      | Inr False \<Rightarrow> and_then (reverse c) (\<lambda>r. are_homotopic r cell))"

section \<open>Simplex (toponetx/classes/simplex.py)\<close>

subsection \<open>Objects and their identity\<close>

text \<open>
  A Simplex object with its fields \<open>name\<close>, \<open>construct_tree\<close>, \<open>nodes\<close> (a
  frozenset), \<open>_faces\<close> (a frozenset of Simplex objects) and \<open>properties\<close>. The
  first field is the identity of the object (Python's \<open>id\<close>): the class defines
  neither \<open>__eq__\<close> nor \<open>__hash__\<close>, so the defaults of \<open>object\<close> apply and both
  depend on the identity alone. Objects are numbered in the order of their
  allocation, and the number of the next object is the state that construction
  passes along.
\<close>

datatype ('a, 'v) Simplex =
  Simplex (ident: nat) (sname: string) (construct_tree: bool) (nodes: "'a set")
    (stored_faces: "('a, 'v) Simplex list") (sproperties: "string \<rightharpoonup> 'v")

text \<open>\<open>object.__eq__\<close>: two objects are equal exactly when they are the same object.\<close>

definition Simplex_eq :: "('a, 'v) Simplex \<Rightarrow> ('a, 'v) Simplex \<Rightarrow> bool" where
  "Simplex_eq a b \<longleftrightarrow> ident a = ident b"

text \<open>\<open>object.__hash__\<close>: computed from the identity, different for different objects.\<close>

definition Simplex_hash :: "('a, 'v) Simplex \<Rightarrow> nat" where
  "Simplex_hash a = ident a"

text \<open>
  A Python set of Simplex objects is a list without two equal members, in the order of
  insertion; \<open>set_add\<close> is \<open>set.add\<close>, which keeps the set unchanged when a member
  with the same hash that compares equal is already there.
\<close>

definition set_add :: "('a, 'v) Simplex \<Rightarrow> ('a, 'v) Simplex list \<Rightarrow> ('a, 'v) Simplex list" where
  "set_add s faceset =
     (if \<exists>t \<in> set faceset. Simplex_hash t = Simplex_hash s \<and> Simplex_eq t s
      then faceset else faceset @ [s])"

text \<open>\<open>__len__\<close>: \<open>len(self.nodes)\<close>.\<close>

definition Simplex_len :: "('a, 'v) Simplex \<Rightarrow> nat" where
  "Simplex_len s = card (nodes s)"

subsection \<open>Construction\<close>

text \<open>
  \<open>Simplex.__init__(elements, name, construct_tree=False, **attr)\<close>, the path that
  \<open>construct_simplex_tree\<close> calls for every face: the object is allocated, the name
  defaults to the empty string, duplicates raise ValueError, and \<open>_faces\<close> is the
  empty frozenset. \<open>elements\<close> is the collection in its iteration order.
\<close>

definition Simplex_leaf ::
  "'a list \<Rightarrow> string option \<Rightarrow> (string \<rightharpoonup> 'v) \<Rightarrow> nat \<Rightarrow> error + (('a, 'v) Simplex \<times> nat)" where
  "Simplex_leaf elems nm attr h =
     (let self_id = h;
          h1 = Suc h;
          self_name = (case nm of None \<Rightarrow> [] | Some n \<Rightarrow> n);
          nds = set elems
      in if card nds \<noteq> length elems then Inl ValueError
         else Inr (Simplex self_id self_name False nds [] attr, h1))"

text \<open>
  \<open>itertools.combinations(elements, r)\<close>: the subsequences of length \<open>r\<close>, in
  lexicographic order of their positions.
\<close>

fun combinations :: "'a list \<Rightarrow> nat \<Rightarrow> 'a list list" where
  "combinations xs 0 = [[]]"
| "combinations [] (Suc r) = []"
| "combinations (x # xs) (Suc r) =
     map ((#) x) (combinations xs r) @ combinations xs (Suc r)"

text \<open>
  The body of the two nested loops of \<open>construct_simplex_tree\<close>, over the faces in the
  order the loops produce them: each face is sorted, built as a Simplex without its
  own tree, and added to \<open>faceset\<close>.
  The nodes are of a linearly ordered type: these are the nodes that \<open>sorted(face)\<close>
  puts in order. On nodes that Python cannot compare with one another, such as \<open>1\<close>
  and \<open>'a'\<close>, \<open>sorted\<close> raises TypeError and no Simplex with a tree is built; the
  type of \<open>add_faces\<close> leaves such collections out, so nothing below says that a
  construction with \<open>construct_tree=True\<close> succeeds on them.
\<close>

fun add_faces ::
  "('a::linorder) list list \<Rightarrow> ('a, 'v) Simplex list \<Rightarrow> nat \<Rightarrow>
     error + (('a, 'v) Simplex list \<times> nat)" where
  "add_faces [] faceset h = Inr (faceset, h)"
| "add_faces (face # rest) faceset h =
     (case Simplex_leaf (sort face) None Map.empty h of
        Inl e \<Rightarrow> Inl e
      | Inr (s, h') \<Rightarrow> add_faces rest (set_add s faceset) h')"

text \<open>
  \<open>Simplex.construct_simplex_tree(elements)\<close>: \<open>r\<close> runs over
  \<open>range(numnodes, 0, -1)\<close> and \<open>face\<close> over \<open>combinations(elements, r)\<close>.
\<close>

definition construct_simplex_tree ::
  "('a::linorder) list \<Rightarrow> nat \<Rightarrow> error + (('a, 'v) Simplex list \<times> nat)" where
  "construct_simplex_tree elems h =
     (let numnodes = length elems in
      add_faces (concat (map (combinations elems) (rev [1..<Suc numnodes]))) [] h)"

text \<open>\<open>Simplex.__init__(elements, name, construct_tree, **attr)\<close>.\<close>

definition Simplex_init ::
  "('a::linorder) list \<Rightarrow> string option \<Rightarrow> bool \<Rightarrow> (string \<rightharpoonup> 'v) \<Rightarrow> nat \<Rightarrow>
     error + (('a, 'v) Simplex \<times> nat)" where
  "Simplex_init elems nm ctree attr h =
     (let self_id = h;
          h1 = Suc h;
          self_name = (case nm of None \<Rightarrow> [] | Some n \<Rightarrow> n);
          nds = set elems
      in if card nds \<noteq> length elems then Inl ValueError
         else if ctree then
           (case construct_simplex_tree elems h1 of
              Inl e \<Rightarrow> Inl e
            | Inr (fs, h2) \<Rightarrow> Inr (Simplex self_id self_name True nds fs attr, h2))
         else Inr (Simplex self_id self_name False nds [] attr, h1))"

subsection \<open>Faces and boundary\<close>

text \<open>
  The property \<open>faces\<close>. Without a stored tree the faces are built anew from the
  frozenset \<open>self.nodes\<close>, whose iteration order Python leaves open; the model
  iterates it in ascending order.
\<close>

definition faces :: "('a::linorder, 'v) Simplex \<Rightarrow> nat \<Rightarrow> error + (('a, 'v) Simplex list \<times> nat)" where
  "faces s h =
     (if construct_tree s then Inr (stored_faces s, h)
      else construct_simplex_tree (sorted_list_of_set (nodes s)) h)"

text \<open>
  The property \<open>boundary\<close>: the faces \<open>i\<close> with \<open>len(i) == len(self) - 1\<close>, the
  subtraction being that of Python's integers.
\<close>

definition Simplex_boundary ::
  "('a::linorder, 'v) Simplex \<Rightarrow> nat \<Rightarrow> error + (('a, 'v) Simplex list \<times> nat)" where
  "Simplex_boundary s h =
     (if construct_tree s then
        Inr (filter (\<lambda>i. int (Simplex_len i) = int (Simplex_len s) - 1) (stored_faces s), h)
      else
        (case construct_simplex_tree (sorted_list_of_set (nodes s)) h of
           Inl e \<Rightarrow> Inl e
         | Inr (fs, h') \<Rightarrow>
             Inr (filter (\<lambda>i. int (Simplex_len i) = int (Simplex_len s) - 1) fs, h')))"

subsection \<open>Membership\<close>

text \<open>
  The Python values a membership test can be given, and that can be nodes: integers
  (hashable, not iterable), strings, tuples and frozensets (hashable and iterable),
  lists and sets (iterable, not hashable), generators (iterable, without \<open>len\<close>) and
  objects that are neither iterable nor hashable.
\<close>

datatype pyobj =
    PInt int
  | PStr string
  | PTuple "pyobj list"
  | PList "pyobj list"
  | PFrozenset "pyobj fset"
  | PSet "pyobj fset"
  | PGenerator "pyobj list"
  | PUnhashable

text \<open>\<open>isinstance(e, Iterable)\<close> and \<open>isinstance(e, Hashable)\<close>.\<close>

fun is_Iterable :: "pyobj \<Rightarrow> bool" where
  "is_Iterable (PInt i) = False"
| "is_Iterable PUnhashable = False"
| "is_Iterable e = True"

fun is_Hashable :: "pyobj \<Rightarrow> bool" where
  "is_Hashable (PList xs) = False"
| "is_Hashable (PSet xs) = False"
| "is_Hashable PUnhashable = False"
| "is_Hashable e = True"

text \<open>\<open>len(e)\<close>: TypeError for an object without \<open>__len__\<close>.\<close>

fun py_len :: "pyobj \<Rightarrow> error + nat" where
  "py_len (PStr s) = Inr (length s)"
| "py_len (PTuple xs) = Inr (length xs)"
| "py_len (PList xs) = Inr (length xs)"
| "py_len (PFrozenset fs) = Inr (fcard fs)"
| "py_len (PSet fs) = Inr (fcard fs)"
| "py_len e = Inl TypeError"

text \<open>
  Whether \<open>hash(x)\<close> succeeds: a tuple hashes its items; the members of a frozenset
  have been hashed when it was built.
\<close>

fun hashable :: "pyobj \<Rightarrow> bool" where
  "hashable (PInt i) = True"
| "hashable (PStr s) = True"
| "hashable (PTuple xs) = list_all hashable xs"
| "hashable (PList xs) = False"
| "hashable (PFrozenset fs) = True"
| "hashable (PSet fs) = False"
| "hashable (PGenerator xs) = True"
| "hashable PUnhashable = False"

text \<open>
  The items that iterating over \<open>e\<close> yields, as a set; a string yields its
  characters as strings of length 1.
\<close>

fun py_items :: "pyobj \<Rightarrow> pyobj set" where
  "py_items (PStr s) = set (map (\<lambda>c. PStr [c]) s)"
| "py_items (PTuple xs) = set xs"
| "py_items (PList xs) = set xs"
| "py_items (PFrozenset fs) = fset fs"
| "py_items (PSet fs) = fset fs"
| "py_items (PGenerator xs) = set xs"
| "py_items e = {}"

text \<open>\<open>frozenset(e)\<close> for an iterable \<open>e\<close>: TypeError when an item cannot be hashed.\<close>

definition frozenset_of :: "pyobj \<Rightarrow> error + pyobj set" where
  "frozenset_of e = (if \<forall>x \<in> py_items e. hashable x then Inr (py_items e) else Inl TypeError)"

text \<open>
  \<open>Simplex.__contains__(e)\<close>. In the last test, \<open>frozenset({e}) in self.nodes\<close> asks
  whether the one-element frozenset is itself a node.
\<close>

definition contains :: "(pyobj, 'v) Simplex \<Rightarrow> pyobj \<Rightarrow> error + bool" where
  "contains s e =
     (if card (nodes s) = 0 then Inr False
      else if is_Iterable e then
        (case py_len e of
           Inl err \<Rightarrow> Inl err
         | Inr n \<Rightarrow>
             if n \<noteq> 1 then Inr False
             else (case e of
                     PFrozenset fs \<Rightarrow> Inr (fset fs \<subseteq> nodes s)
                   | _ \<Rightarrow> (case frozenset_of e of
                              Inl err \<Rightarrow> Inl err
                            | Inr fs \<Rightarrow> Inr (fs \<subseteq> nodes s))))
      else if is_Hashable e then Inr (PFrozenset {|e|} \<in> nodes s)
      else Inr False)"

section \<open>Properties of Cell\<close>

subsection \<open>Boundary edges, validation scans and rotation\<close>

lemma repeated_source_iff:
  "repeated_source bd adj \<longleftrightarrow> (\<not> distinct (map fst bd) \<or> (\<exists>e\<in>set bd. fst e \<in> dom adj))"
proof (induction bd arbitrary: adj)
  case Nil
  show ?case by simp
next
  case (Cons e rest)
  show ?case
    by (cases e) (force simp: Cons.IH image_iff)
qed

lemma self_loop_iff: "self_loop bd \<longleftrightarrow> (\<exists>e\<in>set bd. fst e = snd e)"
  by (induction bd) auto

lemma cyclic_edges_rotate1: "cyclic_edges es = zip es (rotate1 es)"
  by (cases es) (simp_all add: cyclic_edges_def)

lemma length_cyclic_edges [simp]: "length (cyclic_edges es) = length es"
  by (simp add: cyclic_edges_rotate1)

lemma map_fst_cyclic_edges [simp]: "map fst (cyclic_edges es) = es"
  by (simp add: cyclic_edges_rotate1)

lemma map_snd_cyclic_edges: "map snd (cyclic_edges es) = rotate1 es"
  by (simp add: cyclic_edges_rotate1)

lemma nth_cyclic_edges:
  "i < length es \<Longrightarrow> cyclic_edges es ! i = (es ! i, es ! (Suc i mod length es))"
  by (simp add: cyclic_edges_rotate1 nth_rotate1)

lemma rotate1_deque_rotate [simp]: "rotate1 (deque_rotate xs) = xs"
  by (simp add: deque_rotate_def)

lemma deque_rotate_rotate1 [simp]: "deque_rotate (rotate1 xs) = xs"
  by (cases xs) (simp_all add: deque_rotate_def)

lemma rev_rotate1: "rev (rotate1 xs) = deque_rotate (rev xs)"
  by (cases xs) (simp_all add: deque_rotate_def)

lemma rotate1_zip: "length xs = length ys \<Longrightarrow> rotate1 (zip xs ys) = zip (rotate1 xs) (rotate1 ys)"
  by (cases xs; cases ys) (simp_all add: zip_append)

lemma length_deque_rotate [simp]: "length (deque_rotate xs) = length xs"
  by (simp add: deque_rotate_def)

lemma rotate1_rev: "rotate1 (rev es) = rev (deque_rotate es)"
  by (cases es rule: rev_cases) (simp_all add: deque_rotate_def)

lemma set_zip_swap: "set (zip ys xs) = prod.swap ` set (zip xs ys)"
  by (induction xs ys rule: list_induct2') auto

lemma set_cyclic_edges_rev:
  "set (cyclic_edges (rev es)) = prod.swap ` set (cyclic_edges es)"
proof -
  define z where "z = deque_rotate es"
  have es: "es = rotate1 z" by (simp add: z_def)
  have "set (cyclic_edges (rev es)) = set (zip (rev es) (rev z))"
    by (simp add: cyclic_edges_rotate1 rotate1_rev z_def)
  also have "\<dots> = set (zip es z)"
    by (simp add: zip_rev z_def)
  also have "\<dots> = prod.swap ` set (zip z es)"
    by (rule set_zip_swap)
  also have "set (zip z es) = set (rotate1 (zip z es))"
    by simp
  also have "rotate1 (zip z es) = zip (rotate1 z) (rotate1 es)"
    by (rule rotate1_zip) (simp add: z_def)
  also have "\<dots> = cyclic_edges es"
    by (simp add: cyclic_edges_rotate1 es)
  finally show ?thesis .
qed

lemma self_loop_rev: "self_loop (cyclic_edges (rev es)) = self_loop (cyclic_edges es)"
  unfolding self_loop_iff set_cyclic_edges_rev by force

lemma repeated_source_cyclic:
  "repeated_source (cyclic_edges es) Map.empty \<longleftrightarrow> \<not> distinct es"
  by (simp add: repeated_source_iff)

lemma Cell_init_fields:
  assumes "Cell_init elems nm reg attr = Inr c"
  shows "elements c = items elems" "name c = nm" "properties c = attr"
    "regular_flag c = reg" "boundary_list c = cyclic_edges (items elems)"
    "2 \<le> length (items elems)"
  using assms by (auto simp: Cell_init_def Let_def split: if_splits)

lemma Cell_init_ok_iff:
  "(\<exists>c. Cell_init elems nm reg attr = Inr c) \<longleftrightarrow>
     2 \<le> length (items elems) \<and>
     (if reg then distinct (items elems) else \<not> self_loop (cyclic_edges (items elems)))"
  by (auto simp: Cell_init_def Let_def repeated_source_cyclic)

lemma reverse_ok:
  assumes "Cell_init elems nm reg attr = Inr c"
  shows "\<exists>r. reverse c = Inr r"
proof -
  have "2 \<le> length (items elems) \<and>
     (if reg then distinct (items elems) else \<not> self_loop (cyclic_edges (items elems)))"
    using assms Cell_init_ok_iff by blast
  then have "\<exists>r. Cell_init (PyTuple (rev (items elems))) nm reg attr = Inr r"
    by (subst Cell_init_ok_iff) (simp add: self_loop_rev)
  then show ?thesis
    using Cell_init_fields [OF assms] by (simp add: reverse_def)
qed


subsection \<open>Homotopy\<close>

lemma rotation_loop_iff:
  "rotation_loop k xs ys \<longleftrightarrow> (\<exists>j. 1 \<le> j \<and> j \<le> k \<and> ys = rotate j xs)"
proof (induction k arbitrary: ys)
  case 0
  show ?case by simp
next
  case (Suc k)
  have a: "xs = deque_rotate ys \<longleftrightarrow> ys = rotate1 xs"
    by (metis rotate1_deque_rotate deque_rotate_rotate1)
  have b: "deque_rotate ys = rotate j xs \<longleftrightarrow> ys = rotate (Suc j) xs" for j
    by (metis rotate1_deque_rotate deque_rotate_rotate1 rotate_Suc)
  have "rotation_loop (Suc k) xs ys \<longleftrightarrow>
          ys = rotate1 xs \<or> (\<exists>j. 1 \<le> j \<and> j \<le> k \<and> ys = rotate (Suc j) xs)"
    by (simp add: Let_def Suc.IH a b)
  also have "\<dots> \<longleftrightarrow> (\<exists>j. 1 \<le> j \<and> j \<le> Suc k \<and> ys = rotate j xs)"
  proof
    assume "ys = rotate1 xs \<or> (\<exists>j. 1 \<le> j \<and> j \<le> k \<and> ys = rotate (Suc j) xs)"
    then show "\<exists>j. 1 \<le> j \<and> j \<le> Suc k \<and> ys = rotate j xs"
    proof
      assume "ys = rotate1 xs"
      then have "1 \<le> (1::nat) \<and> 1 \<le> Suc k \<and> ys = rotate 1 xs" by simp
      then show ?thesis by blast
    next
      assume "\<exists>j. 1 \<le> j \<and> j \<le> k \<and> ys = rotate (Suc j) xs"
      then obtain j where "1 \<le> j" "j \<le> k" "ys = rotate (Suc j) xs" by blast
      then have "1 \<le> Suc j \<and> Suc j \<le> Suc k \<and> ys = rotate (Suc j) xs" by simp
      then show ?thesis by blast
    qed
  next
    assume "\<exists>j. 1 \<le> j \<and> j \<le> Suc k \<and> ys = rotate j xs"
    then obtain j where j: "1 \<le> j" "j \<le> Suc k" "ys = rotate j xs" by blast
    then obtain i where i: "j = Suc i" by (cases j) auto
    show "ys = rotate1 xs \<or> (\<exists>j. 1 \<le> j \<and> j \<le> k \<and> ys = rotate (Suc j) xs)"
    proof (cases i)
      case 0
      with i j show ?thesis by simp
    next
      case (Suc i')
      with i j have "1 \<le> i \<and> i \<le> k \<and> ys = rotate (Suc i) xs" by simp
      then show ?thesis by blast
    qed
  qed
  finally show ?case .
qed

lemma rotation_exists_iff:
  assumes "length xs = length ys" "ys \<noteq> []"
  shows "(\<exists>j. 1 \<le> j \<and> j \<le> length ys \<and> ys = rotate j xs) \<longleftrightarrow> (\<exists>k. rotate k ys = xs)"
proof
  assume "\<exists>j. 1 \<le> j \<and> j \<le> length ys \<and> ys = rotate j xs"
  then obtain j where j: "1 \<le> j" "j \<le> length ys" "ys = rotate j xs" by blast
  have "rotate (length ys - j) ys = rotate (length ys - j + j) xs"
    by (simp add: j(3) rotate_rotate)
  also have "\<dots> = xs"
    using j(2) assms(1) by (simp add: rotate_id)
  finally show "\<exists>k. rotate k ys = xs" by blast
next
  assume "\<exists>k. rotate k ys = xs"
  then obtain k where k: "rotate k ys = xs" by blast
  define n where "n = length ys"
  have n: "0 < n" using assms(2) by (simp add: n_def)
  define j where "j = n - k mod n"
  have jr: "1 \<le> j" "j \<le> n"
    using n by (simp_all add: j_def Suc_leI)
  have "(j + k) mod n = 0"
  proof -
    have "k mod n < n" using n by simp
    then have "j + k mod n = n" by (simp add: j_def)
    then have "(j + k mod n) mod n = 0" by simp
    then show ?thesis by (simp add: mod_add_right_eq)
  qed
  then have "rotate (j + k) ys = ys"
    by (simp add: rotate_id n_def)
  then have "ys = rotate j xs"
    by (simp add: k [symmetric] rotate_rotate)
  with jr show "\<exists>j. 1 \<le> j \<and> j \<le> length ys \<and> ys = rotate j xs"
    unfolding n_def by blast
qed

lemma are_homotopic_iff:
  assumes "other \<noteq> ArgOther" "elements c \<noteq> []"
  shows "are_homotopic c other =
     Inr (length (elements c) = length (arg_seq other) \<and>
          mset (elements c) = mset (arg_seq other) \<and>
          (\<exists>k. rotate k (arg_seq other) = elements c))"
proof -
  have loop: "rotation_loop (length (arg_seq other)) (elements c) (arg_seq other)
                \<longleftrightarrow> (\<exists>k. rotate k (arg_seq other) = elements c)"
    if "length (elements c) = length (arg_seq other)"
  proof -
    from that assms(2) have "arg_seq other \<noteq> []" by auto
    from rotation_exists_iff [OF that this] show ?thesis
      by (simp add: rotation_loop_iff)
  qed
  have "are_homotopic c other =
     (if Atom_len c \<noteq> length (arg_seq other) then Inr False
      else if mset (arg_seq other) \<noteq> mset (elements c) then Inr False
      else Inr (rotation_loop (length (arg_seq other)) (elements c) (arg_seq other)))"
    using assms(1) by (cases other) (simp_all add: are_homotopic_def Let_def)
  then show ?thesis
    using loop by (auto simp: Atom_len_def)
qed

text \<open>
  Claim C5. \<open>is_homotopic_to\<close> on a constructed cell and a tuple, list or Cell
  returns True exactly when the two element sequences have equal length, equal node
  multisets, and some cyclic rotation of one equals the other or the other reversed.
  The four examples of the claim are instances of it, evaluated further down.
\<close>

theorem is_homotopic_to_spec:
  assumes "Cell_init elems nm reg attr = Inr c" and "other \<noteq> ArgOther"
  shows "is_homotopic_to c other =
     Inr (length (elements c) = length (arg_seq other) \<and>
          mset (elements c) = mset (arg_seq other) \<and>
          (\<exists>k. rotate k (arg_seq other) = elements c \<or>
               rotate k (arg_seq other) = rev (elements c)))"
proof -
  have ne: "elements c \<noteq> []"
    using Cell_init_fields [OF assms(1)] by auto
  obtain r where r: "reverse c = Inr r"
    using reverse_ok [OF assms(1)] by blast
  then have er: "elements r = rev (elements c)"
    by (auto simp: reverse_def dest: Cell_init_fields(1))
  have fwd: "are_homotopic c other =
     Inr (length (elements c) = length (arg_seq other) \<and>
          mset (elements c) = mset (arg_seq other) \<and>
          (\<exists>k. rotate k (arg_seq other) = elements c))"
    by (rule are_homotopic_iff [OF assms(2) ne])
  have bwd: "are_homotopic r other =
     Inr (length (elements c) = length (arg_seq other) \<and>
          mset (elements c) = mset (arg_seq other) \<and>
          (\<exists>k. rotate k (arg_seq other) = rev (elements c)))"
    using are_homotopic_iff [OF assms(2), of r] ne by (simp add: er)
  have "is_homotopic_to c other =
     (case are_homotopic c other of
        Inl e \<Rightarrow> Inl e
      | Inr True \<Rightarrow> Inr True
      | Inr False \<Rightarrow> are_homotopic r other)"
    by (simp add: is_homotopic_to_def r and_then_def split: sum.splits bool.splits)
  then show ?thesis
    by (auto simp: fwd bwd split: bool.splits)
qed

lemma Cell_init_regular_ok:
  assumes "2 \<le> length es" "distinct es"
  shows "Cell_init (PyTuple es) nm True attr =
     Inr \<lparr>elements = es, name = nm, properties = attr,
          regular_flag = True, boundary_list = cyclic_edges es\<rparr>"
  using assms by (auto simp: Cell_init_def Let_def repeated_source_cyclic)

lemma Cell_init_irregular_ok:
  assumes "2 \<le> length es" "\<not> self_loop (cyclic_edges es)"
  shows "Cell_init (PyTuple es) nm False attr =
     Inr \<lparr>elements = es, name = nm, properties = attr,
          regular_flag = False, boundary_list = cyclic_edges es\<rparr>"
  using assms by (auto simp: Cell_init_def Let_def)

theorem is_homotopic_to_spec_witness:
  "and_then (Cell_init (PyTuple [1, 2, 3 :: int]) '''' True (Map.empty :: string \<rightharpoonup> int))
     (\<lambda>c. and_then (Cell_init (PyTuple [2, 3, 1]) '''' True Map.empty)
        (\<lambda>d. is_homotopic_to c (ArgCell d))) = Inr True \<and>
   and_then (Cell_init (PyTuple [1, 2, 3 :: int]) '''' True (Map.empty :: string \<rightharpoonup> int))
     (\<lambda>c. and_then (Cell_init (PyTuple [3, 2, 1]) '''' True Map.empty)
        (\<lambda>d. is_homotopic_to c (ArgCell d))) = Inr True \<and>
   and_then (Cell_init (PyTuple [1, 2, 3 :: int]) '''' True (Map.empty :: string \<rightharpoonup> int))
     (\<lambda>c. and_then (Cell_init (PyTuple [1, 3, 2]) '''' True Map.empty)
        (\<lambda>d. is_homotopic_to c (ArgCell d))) = Inr True \<and>
   and_then (Cell_init (PyTuple [1, 2, 3 :: int]) '''' True (Map.empty :: string \<rightharpoonup> int))
     (\<lambda>c. and_then (Cell_init (PyTuple [1, 2, 4]) '''' True Map.empty)
        (\<lambda>d. is_homotopic_to c (ArgCell d))) = Inr False"
proof -
  define mk :: "int list \<Rightarrow> (int, int) Cell" where
    "mk es = \<lparr>elements = es, name = '''', properties = Map.empty,
              regular_flag = True, boundary_list = cyclic_edges es\<rparr>" for es
  have h: "Cell_init (PyTuple es) '''' True (Map.empty :: string \<rightharpoonup> int) = Inr (mk es)"
    if "2 \<le> length es" "distinct es" for es :: "int list"
    unfolding mk_def by (rule Cell_init_regular_ok [OF that])
  have h1: "Cell_init (PyTuple [1, 2, 3]) '''' True (Map.empty :: string \<rightharpoonup> int) = Inr (mk [1, 2, 3])"
    by (rule h) simp_all
  have h2: "Cell_init (PyTuple [2, 3, 1]) '''' True (Map.empty :: string \<rightharpoonup> int) = Inr (mk [2, 3, 1])"
    by (rule h) simp_all
  have h3: "Cell_init (PyTuple [3, 2, 1]) '''' True (Map.empty :: string \<rightharpoonup> int) = Inr (mk [3, 2, 1])"
    by (rule h) simp_all
  have h4: "Cell_init (PyTuple [1, 3, 2]) '''' True (Map.empty :: string \<rightharpoonup> int) = Inr (mk [1, 3, 2])"
    by (rule h) simp_all
  have h5: "Cell_init (PyTuple [1, 2, 4]) '''' True (Map.empty :: string \<rightharpoonup> int) = Inr (mk [1, 2, 4])"
    by (rule h) simp_all
  have e: "elements (mk es) = es" for es by (simp add: mk_def)
  note spec = is_homotopic_to_spec [OF h1, simplified e]
  have x2: "\<exists>k. rotate k [2, 3, 1 :: int] = [1, 2, 3] \<or> rotate k [2, 3, 1 :: int] = rev [1, 2, 3]"
    by (rule exI [of _ 2]) (simp add: numeral_2_eq_2)
  have x3: "\<exists>k. rotate k [3, 2, 1 :: int] = [1, 2, 3] \<or> rotate k [3, 2, 1 :: int] = rev [1, 2, 3]"
    by (rule exI [of _ 0]) simp
  have x4: "\<exists>k. rotate k [1, 3, 2 :: int] = [1, 2, 3] \<or> rotate k [1, 3, 2 :: int] = rev [1, 2, 3]"
    by (rule exI [of _ 1]) simp
  have a: "is_homotopic_to (mk [1, 2, 3]) (ArgCell (mk [2, 3, 1])) = Inr True"
    using spec [of "ArgCell (mk [2, 3, 1])"] x2 by (simp add: e)
  have b: "is_homotopic_to (mk [1, 2, 3]) (ArgCell (mk [3, 2, 1])) = Inr True"
    using spec [of "ArgCell (mk [3, 2, 1])"] x3 by (simp add: e)
  have c: "is_homotopic_to (mk [1, 2, 3]) (ArgCell (mk [1, 3, 2])) = Inr True"
    using spec [of "ArgCell (mk [1, 3, 2])"] x4 by (simp add: e)
  have d: "is_homotopic_to (mk [1, 2, 3]) (ArgCell (mk [1, 2, 4])) = Inr False"
    using spec [of "ArgCell (mk [1, 2, 4])"] by (simp add: e)
  show ?thesis
    by (simp add: and_then_def h1 h2 h3 h4 h5 a b c d)
qed

subsection \<open>Construction validation\<close>

lemma not_distinct_nth:
  "\<not> distinct xs \<longleftrightarrow> (\<exists>i j. i < j \<and> j < length xs \<and> xs ! i = xs ! j)"
proof
  assume "\<not> distinct xs"
  then obtain i j where ij: "i < length xs" "j < length xs" "i \<noteq> j" "xs ! i = xs ! j"
    unfolding distinct_conv_nth by blast
  show "\<exists>i j. i < j \<and> j < length xs \<and> xs ! i = xs ! j"
  proof (cases "i < j")
    case True
    with ij show ?thesis by blast
  next
    case False
    with ij have "j < i \<and> i < length xs \<and> xs ! j = xs ! i" by simp
    then show ?thesis by blast
  qed
next
  assume "\<exists>i j. i < j \<and> j < length xs \<and> xs ! i = xs ! j"
  then obtain i j where "i < j" "j < length xs" "xs ! i = xs ! j" by blast
  then have "i < length xs \<and> j < length xs \<and> i \<noteq> j \<and> xs ! i = xs ! j" by simp
  then show "\<not> distinct xs"
    unfolding distinct_conv_nth by blast
qed

lemma repeated_source_nth:
  "(\<exists>i j. i < j \<and> j < length (cyclic_edges es) \<and>
          fst (cyclic_edges es ! i) = fst (cyclic_edges es ! j)) \<longleftrightarrow> \<not> distinct es"
proof -
  have "fst (cyclic_edges es ! i) = es ! i" if "i < length es" for i
    using that by (simp add: nth_cyclic_edges)
  then have "(\<exists>i j. i < j \<and> j < length (cyclic_edges es) \<and>
          fst (cyclic_edges es ! i) = fst (cyclic_edges es ! j)) \<longleftrightarrow>
        (\<exists>i j. i < j \<and> j < length es \<and> es ! i = es ! j)"
    by (metis length_cyclic_edges order.strict_trans)
  then show ?thesis by (simp add: not_distinct_nth)
qed

lemma self_loop_nth:
  "self_loop (cyclic_edges es) \<longleftrightarrow>
     (\<exists>i < length es. es ! i = es ! (Suc i mod length es))"
proof
  assume "self_loop (cyclic_edges es)"
  then obtain e where "e \<in> set (cyclic_edges es)" "fst e = snd e"
    unfolding self_loop_iff by blast
  then obtain i where "i < length es" "cyclic_edges es ! i = e"
    by (auto simp: in_set_conv_nth)
  with \<open>fst e = snd e\<close> have "i < length es \<and> es ! i = es ! (Suc i mod length es)"
    by (auto simp: nth_cyclic_edges)
  then show "\<exists>i < length es. es ! i = es ! (Suc i mod length es)" by blast
next
  assume "\<exists>i < length es. es ! i = es ! (Suc i mod length es)"
  then obtain i where i: "i < length es" "es ! i = es ! (Suc i mod length es)" by blast
  then have "cyclic_edges es ! i \<in> set (cyclic_edges es)" by simp
  moreover have "fst (cyclic_edges es ! i) = snd (cyclic_edges es ! i)"
    using i by (simp add: nth_cyclic_edges)
  ultimately show "self_loop (cyclic_edges es)"
    unfolding self_loop_iff by blast
qed

text \<open>
  Claim C7. For an element sequence of length at least 2, construction with
  \<open>regular=True\<close> raises ValueError exactly when two boundary edges at different
  positions have the same source, and succeeds otherwise; construction with
  \<open>regular=False\<close> raises ValueError exactly when some boundary edge is a self-loop
  (\<open>elements[i] == elements[(i+1) mod n]\<close>), and succeeds otherwise, repeated sources
  or not. \<open>Cell((1,2,1,2), regular=False)\<close> succeeds and \<open>Cell((1,2,1,2), regular=True)\<close>
  fails; both are instances of the theorem, evaluated right after it.
\<close>

theorem Cell_init_validation:
  assumes "2 \<le> length (items elems)"
  shows "(Cell_init elems nm True attr = Inl ValueError \<longleftrightarrow>
           (\<exists>i j. i < j \<and> j < length (cyclic_edges (items elems)) \<and>
                  fst (cyclic_edges (items elems) ! i) = fst (cyclic_edges (items elems) ! j))) \<and>
         ((\<exists>c. Cell_init elems nm True attr = Inr c) \<longleftrightarrow>
           \<not> (\<exists>i j. i < j \<and> j < length (cyclic_edges (items elems)) \<and>
                  fst (cyclic_edges (items elems) ! i) = fst (cyclic_edges (items elems) ! j))) \<and>
         (Cell_init elems nm False attr = Inl ValueError \<longleftrightarrow>
           (\<exists>i < length (items elems).
              items elems ! i = items elems ! (Suc i mod length (items elems)))) \<and>
         ((\<exists>c. Cell_init elems nm False attr = Inr c) \<longleftrightarrow>
           \<not> (\<exists>i < length (items elems).
              items elems ! i = items elems ! (Suc i mod length (items elems))))"
proof -
  let ?es = "items elems"
  have ne: "?es \<noteq> []" "\<not> length ?es \<le> 1" using assms by auto
  show ?thesis
    unfolding repeated_source_nth self_loop_nth [symmetric]
    using ne by (simp add: Cell_init_def Let_def repeated_source_cyclic)
qed

theorem Cell_init_validation_witness:
  "2 \<le> length (items (PyTuple [1, 2, 1, 2 :: int])) \<and>
   (\<exists>c. Cell_init (PyTuple [1, 2, 1, 2 :: int]) [] False (Map.empty :: string \<rightharpoonup> int) = Inr c) \<and>
   Cell_init (PyTuple [1, 2, 1, 2 :: int]) [] True (Map.empty :: string \<rightharpoonup> int) = Inl ValueError"
proof -
  have len: "2 \<le> length (items (PyTuple [1, 2, 1, 2 :: int]))" by simp
  have a: "\<not> (\<exists>i < length (items (PyTuple [1, 2, 1, 2 :: int])).
              items (PyTuple [1, 2, 1, 2 :: int]) ! i =
              items (PyTuple [1, 2, 1, 2 :: int]) ! (Suc i mod length (items (PyTuple [1, 2, 1, 2 :: int]))))"
    unfolding self_loop_nth [symmetric] by (simp add: cyclic_edges_def)
  have b: "\<exists>i j. i < j \<and> j < length (cyclic_edges (items (PyTuple [1, 2, 1, 2 :: int]))) \<and>
              fst (cyclic_edges (items (PyTuple [1, 2, 1, 2 :: int])) ! i) =
              fst (cyclic_edges (items (PyTuple [1, 2, 1, 2 :: int])) ! j)"
    unfolding repeated_source_nth by simp
  note v = Cell_init_validation [OF len, of "[]" "Map.empty :: string \<rightharpoonup> int"]
  from v a
  have ok: "\<exists>c. Cell_init (PyTuple [1, 2, 1, 2 :: int]) [] False (Map.empty :: string \<rightharpoonup> int) = Inr c"
    by blast
  from v b
  have bad: "Cell_init (PyTuple [1, 2, 1, 2 :: int]) [] True (Map.empty :: string \<rightharpoonup> int) = Inl ValueError"
    by blast
  from len ok bad show ?thesis by blast
qed

subsection \<open>Reversal\<close>

text \<open>
  Claim C9. For a constructed cell \<open>c\<close>, \<open>c.reverse()\<close> returns a cell whose element
  sequence is the reverse of \<open>c\<close>'s, with the same name, regularity flag and
  properties, and reversing that cell again returns a cell whose element sequence is
  \<open>c\<close>'s.
\<close>

theorem reverse_spec:
  assumes "Cell_init elems nm reg attr = Inr c"
  shows "\<exists>r. reverse c = Inr r \<and>
            elements r = rev (elements c) \<and>
            name r = name c \<and>
            regular_flag r = regular_flag c \<and>
            properties r = properties c \<and>
            (\<exists>rr. reverse r = Inr rr \<and> elements rr = elements c)"
proof -
  obtain r where r: "reverse c = Inr r"
    using reverse_ok [OF assms] by blast
  then have r': "Cell_init (PyTuple (rev (elements c))) (name c) (regular_flag c) (properties c) = Inr r"
    by (simp add: reverse_def)
  obtain rr where rr: "reverse r = Inr rr"
    using reverse_ok [OF r'] by blast
  then have rr': "Cell_init (PyTuple (rev (elements r))) (name r) (regular_flag r) (properties r) = Inr rr"
    by (simp add: reverse_def)
  have "elements r = rev (elements c)" "name r = name c" "regular_flag r = regular_flag c"
    "properties r = properties c"
    using Cell_init_fields [OF r'] by simp_all
  moreover have "elements rr = elements c"
    using Cell_init_fields(1) [OF rr'] \<open>elements r = rev (elements c)\<close> by simp
  ultimately show ?thesis using r rr by blast
qed

theorem reverse_spec_witness:
  "and_then (Cell_init (PyTuple [1, 2, 3 :: int]) ''tri'' True [''weight'' \<mapsto> 1 :: int])
     (\<lambda>c. and_then (reverse c) (\<lambda>r. Inr (elements r, name r, regular_flag r, properties r ''weight'')))
     = Inr ([3, 2, 1], ''tri'', True, Some 1) \<and>
   and_then (Cell_init (PyTuple [1, 2, 3 :: int]) ''tri'' True [''weight'' \<mapsto> 1 :: int])
     (\<lambda>c. and_then (reverse c) (\<lambda>r. and_then (reverse r) (\<lambda>rr. Inr (elements rr))))
     = Inr [1, 2, 3]"
proof -
  define c :: "(int, int) Cell" where
    "c = \<lparr>elements = [1, 2, 3], name = ''tri'', properties = [''weight'' \<mapsto> 1],
           regular_flag = True, boundary_list = cyclic_edges [1, 2, 3]\<rparr>"
  have h: "Cell_init (PyTuple [1, 2, 3 :: int]) ''tri'' True [''weight'' \<mapsto> 1 :: int] = Inr c"
    unfolding c_def by (rule Cell_init_regular_ok) simp_all
  from reverse_spec [OF h] obtain r rr where
    r: "reverse c = Inr r" "elements r = rev (elements c)" "name r = name c"
       "regular_flag r = regular_flag c" "properties r = properties c"
       and rr: "reverse r = Inr rr" "elements rr = elements c"
    by blast
  show ?thesis
    by (simp add: h and_then_def r rr) (simp add: c_def)
qed

subsection \<open>Collections with fewer than two elements\<close>

text \<open>
  Claim C4 asks for ValueError on every collection with fewer than 2 elements. On the
  empty collection (list or tuple) \<open>Cell.__init__\<close> raises IndexError instead:
  \<open>elements[0]\<close> is evaluated for the boundary before the length test is reached.
\<close>

theorem Cell_init_empty: "Cell_init (PyList []) nm regular attr = Inl IndexError \<and>
   Cell_init (PyTuple []) nm regular attr = Inl IndexError"
  by (simp add: Cell_init_def)

text \<open>A single element does reach the length test.\<close>

lemma Cell_init_singleton: "length (items elems) = 1 \<Longrightarrow> Cell_init elems nm regular attr = Inl ValueError"
  by (auto simp: Cell_init_def Let_def)

text \<open>
  Claim C3 asks that \<open>is_valid_cell\<close> returns a boolean and never raises. It raises
  IndexError on the empty list, for the same reason as the constructor, and TypeError
  on every non-empty tuple, whose slice cannot be added to a list.
\<close>

theorem is_valid_cell_raises:
  "is_valid_cell (PyList []) regular = Inl IndexError \<and>
   is_valid_cell (PyTuple [1, 2, 3 :: int]) regular = Inl TypeError"
  by (simp add: is_valid_cell_def)

text \<open>
  On a non-empty list the check agrees with the constructor: it returns True exactly
  when \<open>Cell(elements, regular=regular)\<close> would be constructed.
\<close>

lemma is_valid_cell_list:
  assumes "es \<noteq> []"
  shows "is_valid_cell (PyList es) regular = Inr (\<exists>c. Cell_init (PyList es) nm regular attr = Inr c)"
  using assms by (auto simp: is_valid_cell_def Cell_init_def Let_def)

subsection \<open>Orientation of a boundary edge\<close>

lemma sign_pair:
  "sign c (Sized [a, b]) =
     (if (a, b) \<in> set (boundary c) then Inr 1
      else if (b, a) \<in> set (boundary c) then Inr (- 1)
      else Inl KeyError)"
  by (simp add: sign_def)

lemma sign_arity: "length xs \<noteq> 2 \<Longrightarrow> sign c (Sized xs) = Inl ValueError"
  by (auto simp: sign_def split: list.splits)

lemma boundary_nth:
  assumes "Cell_init elems nm reg attr = Inr c"
  shows "(a, b) \<in> set (boundary c) \<longleftrightarrow>
     (\<exists>i < length (elements c). elements c ! i = a \<and> elements c ! (Suc i mod length (elements c)) = b)"
proof -
  have b: "boundary c = cyclic_edges (elements c)"
    using Cell_init_fields [OF assms] by (simp add: boundary_def)
  show ?thesis
    unfolding b in_set_conv_nth
    by (auto simp: nth_cyclic_edges)
qed

text \<open>
  Claim C6 gives \<open>Cell((1,2,3)).sign((1,3))\<close> as raising the not-in-boundary
  failure. The reverse \<open>(3,1)\<close> closes the boundary of the triangle, so the call
  returns \<open>-1\<close>.
\<close>

theorem sign_13_counterexample:
  "and_then (Cell_init (PyTuple [1, 2, 3 :: int]) [] True (Map.empty :: string \<rightharpoonup> int))
     (\<lambda>c. sign c (Sized [1, 3])) = Inr (- 1) \<and>
   and_then (Cell_init (PyTuple [1, 2, 3 :: int]) [] True (Map.empty :: string \<rightharpoonup> int))
     (\<lambda>c. sign c (Sized [1, 3])) \<noteq> Inl KeyError"
  by (simp add: and_then_def Cell_init_def cyclic_edges_def sign_def boundary_def)

text \<open>
  Claim C6, amended. For a constructed cell \<open>c\<close> whose boundary edges are the pairs
  \<open>(elements[i], elements[(i+1) mod n])\<close>, and a 2-element iterable \<open>edge\<close>,
  \<open>c.sign(edge)\<close> returns \<open>+1\<close> if the edge in that orientation is a boundary
  edge, otherwise \<open>-1\<close> if its reverse is a boundary edge, and raises KeyError if
  neither orientation is; it raises TypeError on an input that is not iterable and
  ValueError on an iterable whose length is not 2. On \<open>Cell((1,2,3))\<close>:
  \<open>sign((2,3)) = 1\<close>, \<open>sign((3,2)) = -1\<close>, \<open>sign((1,3)) = -1\<close>, and
  \<open>sign((1,4))\<close> raises KeyError.
\<close>

theorem sign_spec:
  assumes "Cell_init elems nm reg attr = Inr c"
  shows "(\<forall>a b. sign c (Sized [a, b]) =
            (if (a, b) \<in> set (boundary c) then Inr 1
             else if (b, a) \<in> set (boundary c) then Inr (- 1)
             else Inl KeyError)) \<and>
         (\<forall>a b. (a, b) \<in> set (boundary c) \<longleftrightarrow>
            (\<exists>i < length (elements c).
               elements c ! i = a \<and> elements c ! (Suc i mod length (elements c)) = b)) \<and>
         sign c NotIterable = Inl TypeError \<and>
         (\<forall>xs. length xs \<noteq> 2 \<longrightarrow> sign c (Sized xs) = Inl ValueError) \<and>
         and_then (Cell_init (PyTuple [1, 2, 3 :: int]) [] True (Map.empty :: string \<rightharpoonup> int))
           (\<lambda>c. sign c (Sized [2, 3])) = Inr 1 \<and>
         and_then (Cell_init (PyTuple [1, 2, 3 :: int]) [] True (Map.empty :: string \<rightharpoonup> int))
           (\<lambda>c. sign c (Sized [3, 2])) = Inr (- 1) \<and>
         and_then (Cell_init (PyTuple [1, 2, 3 :: int]) [] True (Map.empty :: string \<rightharpoonup> int))
           (\<lambda>c. sign c (Sized [1, 3])) = Inr (- 1) \<and>
         and_then (Cell_init (PyTuple [1, 2, 3 :: int]) [] True (Map.empty :: string \<rightharpoonup> int))
           (\<lambda>c. sign c (Sized [1, 4])) = Inl KeyError"
proof -
  have ex: "and_then (Cell_init (PyTuple [1, 2, 3 :: int]) [] True (Map.empty :: string \<rightharpoonup> int))
              (\<lambda>c. sign c (Sized [x, y])) =
            (if (x, y) \<in> {(1, 2), (2, 3), (3, 1)} then Inr 1
             else if (y, x) \<in> {(1, 2), (2, 3), (3, 1)} then Inr (- 1) else Inl KeyError)" for x y
    by (simp add: and_then_def Cell_init_def cyclic_edges_def sign_pair boundary_def)
  have gen: "\<forall>a b. (a, b) \<in> set (boundary c) \<longleftrightarrow>
            (\<exists>i < length (elements c).
               elements c ! i = a \<and> elements c ! (Suc i mod length (elements c)) = b)"
    using boundary_nth [OF assms] by blast
  have ni: "sign c NotIterable = Inl TypeError" by (simp add: sign_def)
  have c1: "and_then (Cell_init (PyTuple [1, 2, 3 :: int]) [] True (Map.empty :: string \<rightharpoonup> int))
           (\<lambda>c. sign c (Sized [2, 3])) = Inr 1"
    by (simp add: ex)
  have c2: "and_then (Cell_init (PyTuple [1, 2, 3 :: int]) [] True (Map.empty :: string \<rightharpoonup> int))
           (\<lambda>c. sign c (Sized [3, 2])) = Inr (- 1)"
    by (simp add: ex)
  have c3: "and_then (Cell_init (PyTuple [1, 2, 3 :: int]) [] True (Map.empty :: string \<rightharpoonup> int))
           (\<lambda>c. sign c (Sized [1, 3])) = Inr (- 1)"
    by (simp add: ex)
  have c4: "and_then (Cell_init (PyTuple [1, 2, 3 :: int]) [] True (Map.empty :: string \<rightharpoonup> int))
           (\<lambda>c. sign c (Sized [1, 4])) = Inl KeyError"
    by (simp add: ex)
  have pair: "\<forall>a b. sign c (Sized [a, b]) =
            (if (a, b) \<in> set (boundary c) then Inr 1
             else if (b, a) \<in> set (boundary c) then Inr (- 1)
             else Inl KeyError)"
    by (simp add: sign_pair)
  have ar: "\<forall>xs. length xs \<noteq> 2 \<longrightarrow> sign c (Sized xs) = Inl ValueError"
    by (simp add: sign_arity)
  from pair gen ni ar c1 c2 c3 c4 show ?thesis by (intro conjI)
qed

theorem sign_spec_witness:
  "(\<exists>c. Cell_init (PyTuple [1, 2, 3 :: int]) [] True (Map.empty :: string \<rightharpoonup> int) = Inr c \<and>
        sign c (Sized [2, 3]) = Inr 1 \<and>
        sign c (Sized [3, 2]) = Inr (- 1) \<and>
        sign c (Sized [1, 3]) = Inr (- 1) \<and>
        sign c (Sized [4, 1]) = Inl KeyError \<and>
        sign c (Sized [1, 2, 3]) = Inl ValueError \<and>
        sign c NotIterable = Inl TypeError)"
proof -
  define c :: "(int, int) Cell" where
    "c = \<lparr>elements = [1, 2, 3], name = [], properties = Map.empty,
           regular_flag = True, boundary_list = cyclic_edges [1, 2, 3]\<rparr>"
  have h: "Cell_init (PyTuple [1, 2, 3 :: int]) [] True (Map.empty :: string \<rightharpoonup> int) = Inr c"
    unfolding c_def by (rule Cell_init_regular_ok) simp_all
  have b: "set (boundary c) = {(1, 2), (2, 3), (3, 1)}"
    by (simp add: c_def boundary_def cyclic_edges_def)
  note s = sign_spec [OF h]
  from s have pair: "sign c (Sized [a, b]) =
            (if (a, b) \<in> set (boundary c) then Inr 1
             else if (b, a) \<in> set (boundary c) then Inr (- 1)
             else Inl KeyError)" for a b by blast
  from s have ar: "length xs \<noteq> 2 \<Longrightarrow> sign c (Sized xs) = Inl ValueError" for xs by blast
  from s have ni: "sign c NotIterable = Inl TypeError" by blast
  have "sign c (Sized [2, 3]) = Inr 1" "sign c (Sized [3, 2]) = Inr (- 1)"
    "sign c (Sized [1, 3]) = Inr (- 1)" "sign c (Sized [4, 1]) = Inl KeyError"
    by (simp_all add: pair b)
  moreover have "sign c (Sized [1, 2, 3]) = Inl ValueError" by (rule ar) simp
  ultimately show ?thesis using h ni by blast
qed

text \<open>
  Claim C10. The forward test of \<open>sign\<close> comes first: for a constructed cell and
  an edge whose given orientation is a boundary edge, \<open>sign\<close> returns \<open>+1\<close> and
  never \<open>-1\<close>, also when the reverse is a boundary edge too, in which case both
  orientations get \<open>+1\<close>. \<open>Cell((1,2,1,3), regular=False)\<close> is such a cell, with
  \<open>(1,2)\<close> and \<open>(2,1)\<close> in its boundary.
\<close>

theorem sign_forward_first:
  assumes "Cell_init elems nm reg attr = Inr c" and "(a, b) \<in> set (boundary c)"
  shows "sign c (Sized [a, b]) = Inr 1 \<and>
         sign c (Sized [a, b]) \<noteq> Inr (- 1) \<and>
         ((b, a) \<in> set (boundary c) \<longrightarrow> sign c (Sized [b, a]) = Inr 1)"
  using assms(2) by (simp add: sign_pair)

theorem sign_forward_first_witness:
  "(\<exists>c. Cell_init (PyTuple [1, 2, 1, 3 :: int]) [] False (Map.empty :: string \<rightharpoonup> int) = Inr c \<and>
        (1, 2) \<in> set (boundary c) \<and> (2, 1) \<in> set (boundary c) \<and>
        sign c (Sized [1, 2]) = Inr 1 \<and> sign c (Sized [2, 1]) = Inr 1)"
proof -
  define c :: "(int, int) Cell" where
    "c = \<lparr>elements = [1, 2, 1, 3], name = [], properties = Map.empty,
           regular_flag = False, boundary_list = cyclic_edges [1, 2, 1, 3]\<rparr>"
  have h: "Cell_init (PyTuple [1, 2, 1, 3 :: int]) [] False (Map.empty :: string \<rightharpoonup> int) = Inr c"
    unfolding c_def by (rule Cell_init_irregular_ok) (simp_all add: cyclic_edges_def)
  have b: "(1, 2) \<in> set (boundary c)" "(2, 1) \<in> set (boundary c)"
    by (simp_all add: c_def boundary_def cyclic_edges_def)
  from sign_forward_first [OF h b(1)] b(2)
  have "sign c (Sized [1, 2]) = Inr 1" "sign c (Sized [2, 1]) = Inr 1" by simp_all
  with h b show ?thesis by blast
qed

section \<open>Properties of Simplex\<close>

subsection \<open>The faces that the tree construction enumerates\<close>

lemma length_combinations: "length (combinations xs r) = length xs choose r"
  by (induction xs r rule: combinations.induct) simp_all

lemma filter_len0_subseqs: "filter (\<lambda>ys. length ys = 0) (subseqs xs) = [[]]"
  by (induction xs) (simp_all add: Let_def filter_map o_def)

lemma combinations_subseqs: "combinations xs r = filter (\<lambda>ys. length ys = r) (subseqs xs)"
proof (induction xs r rule: combinations.induct)
  case (1 xs)
  show ?case using filter_len0_subseqs [of xs] by simp
next
  case (2 r)
  show ?case by simp
next
  case (3 x xs r)
  then show ?case by (simp add: Let_def filter_map o_def)
qed


subsection \<open>Construction\<close>

lemma Simplex_leaf_ok:
  assumes "distinct es"
  shows "Simplex_leaf es nm attr h =
     Inr (Simplex h (case nm of None \<Rightarrow> [] | Some n \<Rightarrow> n) False (set es) [] attr, Suc h)"
  using assms by (simp add: Simplex_leaf_def Let_def distinct_card)

lemma Simplex_leaf_dup:
  assumes "\<not> distinct es"
  shows "Simplex_leaf es nm attr h = Inl ValueError"
  using assms card_distinct [of es] by (auto simp: Simplex_leaf_def Let_def)

lemma set_add_fresh:
  assumes "\<forall>t \<in> set faceset. ident t \<noteq> ident s"
  shows "set_add s faceset = faceset @ [s]"
  using assms by (auto simp: set_add_def Simplex_eq_def)

lemma add_faces_ok:
  assumes "\<forall>f \<in> set fsl. distinct f" and "\<forall>s \<in> set acc. ident s < h"
  shows "\<exists>new. add_faces fsl acc h = Inr (acc @ new, h + length fsl) \<and>
           map nodes new = map set fsl \<and>
           map ident new = [h..<h + length fsl]"
  using assms
proof (induction fsl arbitrary: acc h)
  case Nil
  show ?case by simp
next
  case (Cons f rest)
  define s :: "('a, 'b) Simplex" where "s = Simplex h [] False (set (sort f)) [] Map.empty"
  have leaf: "Simplex_leaf (sort f) None (Map.empty :: string \<rightharpoonup> 'b) h = Inr (s, Suc h)"
    using Cons.prems(1) by (simp add: Simplex_leaf_ok s_def)
  have add: "set_add s acc = acc @ [s]"
    using Cons.prems(2) by (intro set_add_fresh) (auto simp: s_def)
  have "\<forall>t \<in> set (acc @ [s]). ident t < Suc h"
    using Cons.prems(2) by (auto simp: s_def less_Suc_eq)
  with Cons.IH [of "acc @ [s]" "Suc h"] Cons.prems(1)
  obtain new where new: "add_faces rest (acc @ [s]) (Suc h) = Inr ((acc @ [s]) @ new, Suc h + length rest)"
    "map nodes new = map set rest" "map ident new = [Suc h..<Suc h + length rest]"
    by auto
  have "add_faces (f # rest) acc h = Inr (acc @ (s # new), h + length (f # rest))"
    by (simp add: leaf add new(1))
  moreover have "map nodes (s # new) = map set (f # rest)"
    by (simp add: new(2) s_def)
  moreover have "map ident (s # new) = [h..<h + length (f # rest)]"
  proof -
    have "[h..<h + length (f # rest)] = h # [Suc h..<Suc h + length rest]"
      by (subst upt_rec) simp
    then show ?thesis by (simp add: new(3) s_def)
  qed
  ultimately show ?case by blast
qed


lemma all_faces_distinct:
  assumes "distinct es" and "f \<in> set (concat (map (combinations es) rs))"
  shows "distinct f"
  using assms by (auto simp: combinations_subseqs dest: subseqs_distinctD)

lemma sum_choose_pos: "(\<Sum>r\<leftarrow>rev [1..<Suc n]. n choose r) = 2 ^ n - 1"
proof -
  have "(\<Sum>r\<leftarrow>rev [1..<Suc n]. n choose r) = (\<Sum>r\<leftarrow>[1..<Suc n]. n choose r)"
    by (simp add: rev_map [symmetric] del: upt_Suc)
  also have "\<dots> = (\<Sum>r = 1..<Suc n. n choose r)"
    by (simp add: interv_sum_list_conv_sum_set_nat del: upt_Suc)
  also have "\<dots> = (\<Sum>r \<le> n. n choose r) - (n choose 0)"
  proof -
    have "{..n} = insert 0 {1..<Suc n}" by auto
    then have "(\<Sum>r \<le> n. n choose r) = (n choose 0) + (\<Sum>r = 1..<Suc n. n choose r)"
      by simp
    then show ?thesis by simp
  qed
  also have "\<dots> = 2 ^ n - 1"
    by (simp add: choose_row_sum)
  finally show ?thesis .
qed

lemma length_all_faces:
  "length (concat (map (combinations es) (rev [1..<Suc (length es)]))) = 2 ^ length es - 1"
proof -
  have "length (concat (map (combinations es) (rev [1..<Suc (length es)]))) =
        (\<Sum>r\<leftarrow>rev [1..<Suc (length es)]. length es choose r)"
    by (simp add: length_concat o_def length_combinations rev_map del: upt_Suc)
  then show ?thesis by (simp only: sum_choose_pos)
qed

lemma set_all_faces:
  "set (concat (map (combinations es) (rev [1..<Suc (length es)]))) =
     {ys \<in> set (subseqs es). ys \<noteq> []}"
proof -
  have len: "length ys \<le> length es" if "ys \<in> set (subseqs es)" for ys
    using that
  proof (induction es arbitrary: ys)
    case Nil
    then show ?case by simp
  next
    case (Cons e es)
    then have "ys \<in> set (subseqs es) \<or> (\<exists>zs \<in> set (subseqs es). ys = e # zs)"
      by (auto simp: Let_def)
    then show ?case
    proof
      assume "ys \<in> set (subseqs es)"
      then have "length ys \<le> length es" by (rule Cons.IH)
      then show ?thesis by simp
    next
      assume "\<exists>zs \<in> set (subseqs es). ys = e # zs"
      then obtain zs where "zs \<in> set (subseqs es)" "ys = e # zs" by blast
      then show ?thesis using Cons.IH [of zs] by simp
    qed
  qed
  show ?thesis
    using len by (fastforce simp: combinations_subseqs Suc_le_eq)
qed


lemma node_sets_all_faces:
  "set ` set (concat (map (combinations es) (rev [1..<Suc (length es)]))) =
     {A. A \<subseteq> set es \<and> A \<noteq> {}}"
proof -
  have *: "set ` {ys \<in> set (subseqs es). ys \<noteq> []} = Pow (set es) - {{}}"
  proof
    show "set ` {ys \<in> set (subseqs es). ys \<noteq> []} \<subseteq> Pow (set es) - {{}}"
      using subseqs_powset [of es] by auto
  next
    show "Pow (set es) - {{}} \<subseteq> set ` {ys \<in> set (subseqs es). ys \<noteq> []}"
    proof
      fix A assume A: "A \<in> Pow (set es) - {{}}"
      then have "A \<in> set ` set (subseqs es)" by (simp add: subseqs_powset)
      then obtain ys where ys: "ys \<in> set (subseqs es)" "A = set ys" by blast
      with A have "ys \<noteq> []" by auto
      with ys show "A \<in> set ` {ys \<in> set (subseqs es). ys \<noteq> []}" by blast
    qed
  qed
  have "Pow (set es) - {{}} = {A. A \<subseteq> set es \<and> A \<noteq> {}}" by auto
  with * show ?thesis
    by (simp only: set_all_faces)
qed

lemma card_nonempty_subsets:
  assumes "finite S"
  shows "card {A. A \<subseteq> S \<and> A \<noteq> {}} = 2 ^ card S - 1"
proof -
  have "{A. A \<subseteq> S \<and> A \<noteq> {}} = Pow S - {{}}" by auto
  then show ?thesis using assms by (simp add: card_Pow)
qed

lemma distinct_node_sets_all_faces:
  assumes "distinct es"
  shows "distinct (map set (concat (map (combinations es) (rev [1..<Suc (length es)]))))"
proof (rule card_distinct)
  let ?fs = "concat (map (combinations es) (rev [1..<Suc (length es)]))"
  have "card (set (map set ?fs)) = 2 ^ card (set es) - 1"
    by (simp only: set_map node_sets_all_faces card_nonempty_subsets [OF finite_set])
  also have "\<dots> = length (map set ?fs)"
    using assms by (simp only: length_map length_all_faces distinct_card)
  finally show "card (set (map set ?fs)) = length (map set ?fs)" .
qed

lemma construct_simplex_tree_ok:
  assumes "distinct es"
  shows "\<exists>fs. construct_simplex_tree es h = Inr (fs, h + (2 ^ length es - 1)) \<and>
           length fs = 2 ^ length es - 1 \<and>
           map ident fs = [h..<h + (2 ^ length es - 1)] \<and>
           distinct (map nodes fs) \<and>
           set (map nodes fs) = {A. A \<subseteq> set es \<and> A \<noteq> {}}"
proof -
  let ?fs = "concat (map (combinations es) (rev [1..<Suc (length es)]))"
  have d: "\<forall>f \<in> set ?fs. distinct f"
    using all_faces_distinct [OF assms] by blast
  obtain new :: "('a, 'b) Simplex list" where new:
    "add_faces ?fs [] h = Inr ([] @ new, h + length ?fs)"
    "map nodes new = map set ?fs" "map ident new = [h..<h + length ?fs]"
    using add_faces_ok [OF d, of "[]" h] by auto
  have len: "length new = 2 ^ length es - 1"
    using new(2) length_all_faces [of es] by (metis length_map)
  have "construct_simplex_tree es h = add_faces ?fs [] h"
    by (simp only: construct_simplex_tree_def Let_def)
  also have "\<dots> = Inr (new, h + (2 ^ length es - 1))"
    using new(1) by (simp only: length_all_faces append_Nil)
  finally have "construct_simplex_tree es h = Inr (new, h + (2 ^ length es - 1))" .
  moreover have "map ident new = [h..<h + (2 ^ length es - 1)]"
    using new(3) by (simp only: length_all_faces)
  moreover have "distinct (map nodes new)"
    using distinct_node_sets_all_faces [OF assms] by (simp only: new(2))
  moreover have "set (map nodes new) = {A. A \<subseteq> set es \<and> A \<noteq> {}}"
    by (simp only: new(2) set_map node_sets_all_faces)
  ultimately show ?thesis using len by blast
qed

lemma Simplex_init_False: "Simplex_init es nm False attr h = Simplex_leaf es nm attr h"
  by (simp add: Simplex_init_def Simplex_leaf_def Let_def)

lemma Simplex_init_dup:
  assumes "\<not> distinct es"
  shows "Simplex_init es nm ctree attr h = Inl ValueError"
  using assms card_distinct [of es] by (auto simp: Simplex_init_def Let_def)

lemma Simplex_init_ok:
  assumes "distinct es"
  shows "\<exists>S h'. Simplex_init es nm ctree attr h = Inr (S, h') \<and>
           ident S = h \<and> h < h' \<and> nodes S = set es \<and> construct_tree S = ctree \<and>
           sname S = (case nm of None \<Rightarrow> [] | Some n \<Rightarrow> n) \<and> sproperties S = attr \<and>
           (ctree \<longrightarrow>
              length (stored_faces S) = 2 ^ length es - 1 \<and>
              distinct (map ident (stored_faces S)) \<and>
              distinct (map nodes (stored_faces S)) \<and>
              set (map nodes (stored_faces S)) = {A. A \<subseteq> set es \<and> A \<noteq> {}})"
proof (cases ctree)
  case False
  then show ?thesis
    using assms by (simp add: Simplex_init_False Simplex_leaf_ok)
next
  case True
  obtain fs :: "('a, 'b) Simplex list" where fs:
    "construct_simplex_tree es (Suc h) = Inr (fs, Suc h + (2 ^ length es - 1))"
    "length fs = 2 ^ length es - 1"
    "map ident fs = [Suc h..<Suc h + (2 ^ length es - 1)]"
    "distinct (map nodes fs)"
    "set (map nodes fs) = {A. A \<subseteq> set es \<and> A \<noteq> {}}"
    using construct_simplex_tree_ok [OF assms, of "Suc h"] by blast
  have "distinct (map ident fs)" by (simp only: fs(3) distinct_upt)
  with fs True assms show ?thesis
    by (simp add: Simplex_init_def Let_def distinct_card)
qed


subsection \<open>Faces and boundary of a simplex with its tree\<close>

text \<open>
  Claim C8. Constructing a Simplex with \<open>construct_tree=True\<close> from \<open>n\<close> nodes
  without duplicates succeeds; its \<open>faces\<close> are \<open>2^n - 1\<close> distinct objects, whose
  node sets are the non-empty subsets of the nodes, each once (the full node set
  among them), and every member of its \<open>boundary\<close> has \<open>n - 1\<close> nodes: the boundary
  consists of the faces on the subsets of that size.
\<close>

theorem Simplex_faces_count:
  assumes "distinct elems"
  shows "\<exists>S h' fs bs.
           Simplex_init elems nm True attr h = Inr (S, h') \<and>
           nodes S = set elems \<and> card (nodes S) = length elems \<and>
           faces S h' = Inr (fs, h') \<and>
           length fs = 2 ^ card (nodes S) - 1 \<and>
           distinct (map ident fs) \<and>
           distinct (map nodes fs) \<and>
           set (map nodes fs) = {A. A \<subseteq> nodes S \<and> A \<noteq> {}} \<and>
           Simplex_boundary S h' = Inr (bs, h') \<and>
           (\<forall>f \<in> set bs. card (nodes f) = card (nodes S) - 1) \<and>
           set (map nodes bs) = {A. A \<subseteq> nodes S \<and> A \<noteq> {} \<and> card A = card (nodes S) - 1}"
proof -
  obtain S :: "('a, 'b) Simplex" and h' where S:
    "Simplex_init elems nm True attr h = Inr (S, h')" "nodes S = set elems" "construct_tree S"
    "length (stored_faces S) = 2 ^ length elems - 1"
    "distinct (map ident (stored_faces S))"
    "distinct (map nodes (stored_faces S))"
    "set (map nodes (stored_faces S)) = {A. A \<subseteq> set elems \<and> A \<noteq> {}}"
    using Simplex_init_ok [OF assms, of nm True attr h] by auto
  have card: "card (nodes S) = length elems"
    using assms by (simp add: S(2) distinct_card)
  define bs where "bs = filter (\<lambda>i. int (Simplex_len i) = int (Simplex_len S) - 1) (stored_faces S)"
  have fa: "faces S h' = Inr (stored_faces S, h')"
    by (simp add: faces_def S(3))
  have bo: "Simplex_boundary S h' = Inr (bs, h')"
    by (simp add: Simplex_boundary_def S(3) bs_def)
  have b1: "\<forall>f \<in> set bs. card (nodes f) = card (nodes S) - 1"
    by (auto simp: bs_def Simplex_len_def)
  have b2: "set (map nodes bs) = {A. A \<subseteq> nodes S \<and> A \<noteq> {} \<and> card A = card (nodes S) - 1}"
  proof -
    have "set (map nodes bs) =
          {A \<in> set (map nodes (stored_faces S)). int (card A) = int (card (nodes S)) - 1}"
      by (auto simp: bs_def Simplex_len_def)
    also have "\<dots> = {A. A \<subseteq> nodes S \<and> A \<noteq> {} \<and> int (card A) = int (card (nodes S)) - 1}"
      by (simp only: S(7) S(2)) blast
    also have "\<dots> = {A. A \<subseteq> nodes S \<and> A \<noteq> {} \<and> card A = card (nodes S) - 1}"
    proof -
      have "int (card A) = int (card (nodes S)) - 1 \<longleftrightarrow> card A = card (nodes S) - 1"
        if "A \<subseteq> nodes S" "A \<noteq> {}" for A
      proof -
        have "finite A" using that(1) S(2) by (metis finite_set finite_subset)
        with that(2) have "0 < card A" by (simp add: card_gt_0_iff)
        then show ?thesis by linarith
      qed
      then show ?thesis by blast
    qed
    finally show ?thesis .
  qed
  from S(1) S(2) card fa S(4) S(5) S(6) S(7) bo b1 b2 show ?thesis
    by (intro exI [of _ S] exI [of _ h'] exI [of _ "stored_faces S"] exI [of _ bs]) simp
qed

theorem Simplex_faces_count_witness:
  "distinct [1, 2, 3 :: int] \<and>
   (\<exists>S h' fs bs.
      Simplex_init [1, 2, 3 :: int] None True (Map.empty :: string \<rightharpoonup> int) 0 = Inr (S, h') \<and>
      card (nodes S) = 3 \<and>
      faces S h' = Inr (fs, h') \<and> length fs = 7 \<and>
      Simplex_boundary S h' = Inr (bs, h') \<and>
      list_all (\<lambda>f. card (nodes f) = 2) bs)"
proof -
  have d: "distinct [1, 2, 3 :: int]" by simp
  from Simplex_faces_count [OF d, of None "Map.empty :: string \<rightharpoonup> int" 0]
  obtain S :: "(int, int) Simplex" where "\<exists>h' fs bs.
           Simplex_init [1, 2, 3 :: int] None True (Map.empty :: string \<rightharpoonup> int) 0 = Inr (S, h') \<and>
           nodes S = set [1, 2, 3] \<and> card (nodes S) = length [1, 2, 3 :: int] \<and>
           faces S h' = Inr (fs, h') \<and>
           length fs = 2 ^ card (nodes S) - 1 \<and>
           distinct (map ident fs) \<and>
           distinct (map nodes fs) \<and>
           set (map nodes fs) = {A. A \<subseteq> nodes S \<and> A \<noteq> {}} \<and>
           Simplex_boundary S h' = Inr (bs, h') \<and>
           (\<forall>f \<in> set bs. card (nodes f) = card (nodes S) - 1) \<and>
           set (map nodes bs) = {A. A \<subseteq> nodes S \<and> A \<noteq> {} \<and> card A = card (nodes S) - 1}" ..
  then obtain h' where "\<exists>fs bs.
           Simplex_init [1, 2, 3 :: int] None True (Map.empty :: string \<rightharpoonup> int) 0 = Inr (S, h') \<and>
           nodes S = set [1, 2, 3] \<and> card (nodes S) = length [1, 2, 3 :: int] \<and>
           faces S h' = Inr (fs, h') \<and>
           length fs = 2 ^ card (nodes S) - 1 \<and>
           distinct (map ident fs) \<and>
           distinct (map nodes fs) \<and>
           set (map nodes fs) = {A. A \<subseteq> nodes S \<and> A \<noteq> {}} \<and>
           Simplex_boundary S h' = Inr (bs, h') \<and>
           (\<forall>f \<in> set bs. card (nodes f) = card (nodes S) - 1) \<and>
           set (map nodes bs) = {A. A \<subseteq> nodes S \<and> A \<noteq> {} \<and> card A = card (nodes S) - 1}" ..
  then obtain fs where "\<exists>bs.
           Simplex_init [1, 2, 3 :: int] None True (Map.empty :: string \<rightharpoonup> int) 0 = Inr (S, h') \<and>
           nodes S = set [1, 2, 3] \<and> card (nodes S) = length [1, 2, 3 :: int] \<and>
           faces S h' = Inr (fs, h') \<and>
           length fs = 2 ^ card (nodes S) - 1 \<and>
           distinct (map ident fs) \<and>
           distinct (map nodes fs) \<and>
           set (map nodes fs) = {A. A \<subseteq> nodes S \<and> A \<noteq> {}} \<and>
           Simplex_boundary S h' = Inr (bs, h') \<and>
           (\<forall>f \<in> set bs. card (nodes f) = card (nodes S) - 1) \<and>
           set (map nodes bs) = {A. A \<subseteq> nodes S \<and> A \<noteq> {} \<and> card A = card (nodes S) - 1}" ..
  then obtain bs where r:
          "Simplex_init [1, 2, 3 :: int] None True (Map.empty :: string \<rightharpoonup> int) 0 = Inr (S, h') \<and>
           nodes S = set [1, 2, 3] \<and> card (nodes S) = length [1, 2, 3 :: int] \<and>
           faces S h' = Inr (fs, h') \<and>
           length fs = 2 ^ card (nodes S) - 1 \<and>
           distinct (map ident fs) \<and>
           distinct (map nodes fs) \<and>
           set (map nodes fs) = {A. A \<subseteq> nodes S \<and> A \<noteq> {}} \<and>
           Simplex_boundary S h' = Inr (bs, h') \<and>
           (\<forall>f \<in> set bs. card (nodes f) = card (nodes S) - 1) \<and>
           set (map nodes bs) = {A. A \<subseteq> nodes S \<and> A \<noteq> {} \<and> card A = card (nodes S) - 1}" ..
  then have r1: "Simplex_init [1, 2, 3 :: int] None True (Map.empty :: string \<rightharpoonup> int) 0 = Inr (S, h')"
    and r3: "card (nodes S) = length [1, 2, 3 :: int]"
    and r4: "faces S h' = Inr (fs, h')"
    and r5: "length fs = 2 ^ card (nodes S) - 1"
    and r6: "Simplex_boundary S h' = Inr (bs, h')"
    and r7: "\<forall>f \<in> set bs. card (nodes f) = card (nodes S) - 1"
    by simp_all
  have c: "card (nodes S) = 3" using r3 by simp
  have len: "length fs = 7" using r5 by (simp add: c)
  have bd: "list_all (\<lambda>f. card (nodes f) = 2) bs"
    using r7 by (simp add: c list_all_iff)
  from r1 c r4 len r6 bd
  have "\<exists>S h' fs bs.
      Simplex_init [1, 2, 3 :: int] None True (Map.empty :: string \<rightharpoonup> int) 0 = Inr (S, h') \<and>
      card (nodes S) = 3 \<and>
      faces S h' = Inr (fs, h') \<and> length fs = 7 \<and>
      Simplex_boundary S h' = Inr (bs, h') \<and>
      list_all (\<lambda>f. card (nodes f) = 2) bs"
    by (intro exI [of _ S] exI [of _ h'] exI [of _ fs] exI [of _ bs] conjI)
  with d show ?thesis by (rule conjI)
qed


subsection \<open>Equality and hashing\<close>

lemma Simplex_init_twice:
  fixes xs ys :: "('a::linorder) list" and a1 a2 :: "string \<rightharpoonup> 'v"
  assumes "distinct xs" and "distinct ys"
  shows "\<exists>S1 h1 S2 h2.
           Simplex_init xs n1 t1 a1 h = Inr (S1, h1) \<and>
           Simplex_init ys n2 t2 a2 h1 = Inr (S2, h2) \<and>
           nodes S1 = set xs \<and> nodes S2 = set ys \<and> ident S1 < ident S2"
proof -
  obtain S1 :: "('a, 'v) Simplex" and h1 where 1:
    "Simplex_init xs n1 t1 a1 h = Inr (S1, h1)" "ident S1 = h" "h < h1" "nodes S1 = set xs"
    using Simplex_init_ok [OF assms(1), of n1 t1 a1 h] by auto
  obtain S2 :: "('a, 'v) Simplex" and h2 where 2:
    "Simplex_init ys n2 t2 a2 h1 = Inr (S2, h2)" "ident S2 = h1" "nodes S2 = set ys"
    using Simplex_init_ok [OF assms(2), of n2 t2 a2 h1] by auto
  from 1 2 show ?thesis by auto
qed

text \<open>
  Claim C1 asks that two Simplex instances built from permutations of the same nodes
  are equal and have equal hashes. \<open>Simplex((1, 2))\<close> and \<open>Simplex((2, 1))\<close> are not
  equal, their hashes differ, and a set they are both added to has two members.
\<close>

theorem Simplex_eq_counterexample:
  "and_then (Simplex_init [1, 2 :: int] None True (Map.empty :: string \<rightharpoonup> int) 0)
     (\<lambda>(S1, h1). and_then (Simplex_init [2, 1 :: int] None True (Map.empty :: string \<rightharpoonup> int) h1)
        (\<lambda>(S2, h2). Inr (Simplex_eq S1 S2, Simplex_hash S1 = Simplex_hash S2,
                          length (set_add S2 (set_add S1 [])))))
   = Inr (False, False, 2)"
proof -
  obtain S1 :: "(int, int) Simplex" and h1 and S2 :: "(int, int) Simplex" and h2 where
    "Simplex_init [1, 2 :: int] None True (Map.empty :: string \<rightharpoonup> int) 0 = Inr (S1, h1)"
    "Simplex_init [2, 1 :: int] None True (Map.empty :: string \<rightharpoonup> int) h1 = Inr (S2, h2)"
    "ident S1 < ident S2"
    using Simplex_init_twice [of "[1, 2 :: int]" "[2, 1]" None True "Map.empty :: string \<rightharpoonup> int" 0
        None True "Map.empty :: string \<rightharpoonup> int"]
    by auto
  then show ?thesis
    by (simp add: and_then_def Simplex_eq_def Simplex_hash_def set_add_def)
qed

text \<open>
  Every Simplex that a constructor call returns carries the identity it was allocated
  under, and its node set is the set of the collection, which has no duplicates.
\<close>

lemma Simplex_init_built:
  assumes "Simplex_init es nm ctree attr h = Inr (S, h')"
  shows "ident S = h \<and> h < h' \<and> nodes S = set es \<and> distinct es"
proof -
  have d: "distinct es"
    using assms Simplex_init_dup [of es nm ctree attr h] by auto
  from Simplex_init_ok [OF d, of nm ctree attr h] assms show ?thesis
    using d by auto
qed

lemma Simplex_leaf_built:
  assumes "Simplex_leaf es nm attr h = Inr (S, h')"
  shows "ident S = h \<and> h < h' \<and> nodes S = set es \<and> distinct es"
proof -
  have d: "distinct es"
    using assms Simplex_leaf_dup [of es nm attr h] by auto
  from Simplex_leaf_ok [OF d, of nm attr h] assms show ?thesis
    using d by auto
qed

lemma identity_semantics:
  assumes "ident A < ident B"
  shows "Simplex_eq A A \<and> Simplex_eq B B \<and> \<not> Simplex_eq A B \<and>
         Simplex_hash A \<noteq> Simplex_hash B \<and> set_add B (set_add A []) = [A, B]"
  using assms by (simp add: Simplex_eq_def Simplex_hash_def set_add_def)

text \<open>
  Claim C1, amended. Equality and hashing of Simplex are those of object identity, not
  of node-set content. For two node collections that are permutations of one another,
  the two instances constructed from them (the second while the first exists) have
  the same node set; each instance is equal to itself, the two are not equal to one
  another and their hashes differ, so a set of Simplex values keeps both. The first
  half is about \<open>Simplex(...)\<close> with any \<open>construct_tree\<close> flag on nodes of an ordered
  type; the second half is about \<open>construct_tree=False\<close>, where nothing is sorted,
  on nodes of any type, such as \<open>1\<close> and \<open>'a'\<close> together.
\<close>

theorem Simplex_permutation:
  fixes xs ys :: "('a::linorder) list" and a1 a2 :: "string \<rightharpoonup> 'v"
    and us vs :: "'b list" and b1 b2 :: "string \<rightharpoonup> 'w"
  shows "(mset ys = mset xs \<and>
          Simplex_init xs n1 t1 a1 h = Inr (S1, h1) \<and> h1 \<le> k \<and>
          Simplex_init ys n2 t2 a2 k = Inr (S2, h2) \<longrightarrow>
            nodes S1 = nodes S2 \<and>
            Simplex_eq S1 S1 \<and> Simplex_eq S2 S2 \<and>
            \<not> Simplex_eq S1 S2 \<and>
            Simplex_hash S1 \<noteq> Simplex_hash S2 \<and>
            set_add S2 (set_add S1 []) = [S1, S2]) \<and>
         (mset vs = mset us \<and>
          Simplex_leaf us m1 b1 g = Inr (L1, g1) \<and> g1 \<le> j \<and>
          Simplex_leaf vs m2 b2 j = Inr (L2, g2) \<longrightarrow>
            nodes L1 = nodes L2 \<and>
            Simplex_eq L1 L1 \<and> Simplex_eq L2 L2 \<and>
            \<not> Simplex_eq L1 L2 \<and>
            Simplex_hash L1 \<noteq> Simplex_hash L2 \<and>
            set_add L2 (set_add L1 []) = [L1, L2])"
proof (rule conjI; rule impI)
  assume a: "mset ys = mset xs \<and>
          Simplex_init xs n1 t1 a1 h = Inr (S1, h1) \<and> h1 \<le> k \<and>
          Simplex_init ys n2 t2 a2 k = Inr (S2, h2)"
  then have 1: "ident S1 = h \<and> h < h1 \<and> nodes S1 = set xs \<and> distinct xs"
    using Simplex_init_built [of xs n1 t1 a1 h S1 h1] by blast
  from a have 2: "ident S2 = k \<and> k < h2 \<and> nodes S2 = set ys \<and> distinct ys"
    using Simplex_init_built [of ys n2 t2 a2 k S2 h2] by blast
  from a have se: "set ys = set xs" by (blast dest: mset_eq_setD)
  from a 1 2 have lt: "ident S1 < ident S2" by simp
  show "nodes S1 = nodes S2 \<and>
            Simplex_eq S1 S1 \<and> Simplex_eq S2 S2 \<and>
            \<not> Simplex_eq S1 S2 \<and>
            Simplex_hash S1 \<noteq> Simplex_hash S2 \<and>
            set_add S2 (set_add S1 []) = [S1, S2]"
    using identity_semantics [OF lt] 1 2 se by simp
next
  assume a: "mset vs = mset us \<and>
          Simplex_leaf us m1 b1 g = Inr (L1, g1) \<and> g1 \<le> j \<and>
          Simplex_leaf vs m2 b2 j = Inr (L2, g2)"
  then have 1: "ident L1 = g \<and> g < g1 \<and> nodes L1 = set us \<and> distinct us"
    using Simplex_leaf_built [of us m1 b1 g L1 g1] by blast
  from a have 2: "ident L2 = j \<and> j < g2 \<and> nodes L2 = set vs \<and> distinct vs"
    using Simplex_leaf_built [of vs m2 b2 j L2 g2] by blast
  from a have se: "set vs = set us" by (blast dest: mset_eq_setD)
  from a 1 2 have lt: "ident L1 < ident L2" by simp
  show "nodes L1 = nodes L2 \<and>
            Simplex_eq L1 L1 \<and> Simplex_eq L2 L2 \<and>
            \<not> Simplex_eq L1 L2 \<and>
            Simplex_hash L1 \<noteq> Simplex_hash L2 \<and>
            set_add L2 (set_add L1 []) = [L1, L2]"
    using identity_semantics [OF lt] 1 2 se by simp
qed

theorem Simplex_permutation_witness:
  "(\<exists>S1 h1 S2 h2.
      Simplex_init [1, 2, 3 :: int] None True (Map.empty :: string \<rightharpoonup> int) 0 = Inr (S1, h1) \<and>
      Simplex_init [3, 1, 2 :: int] None True (Map.empty :: string \<rightharpoonup> int) h1 = Inr (S2, h2) \<and>
      mset [3, 1, 2 :: int] = mset [1, 2, 3] \<and>
      nodes S1 = nodes S2 \<and> \<not> Simplex_eq S1 S2 \<and> Simplex_hash S1 \<noteq> Simplex_hash S2 \<and>
      set_add S2 (set_add S1 []) = [S1, S2]) \<and>
   (\<exists>L1 g1 L2 g2.
      Simplex_leaf [PInt 1, PStr ''a''] None (Map.empty :: string \<rightharpoonup> int) 0 = Inr (L1, g1) \<and>
      Simplex_leaf [PStr ''a'', PInt 1] None (Map.empty :: string \<rightharpoonup> int) g1 = Inr (L2, g2) \<and>
      mset [PStr ''a'', PInt 1] = mset [PInt 1, PStr ''a''] \<and>
      nodes L1 = nodes L2 \<and> \<not> Simplex_eq L1 L2 \<and> Simplex_hash L1 \<noteq> Simplex_hash L2 \<and>
      set_add L2 (set_add L1 []) = [L1, L2])"
proof -
  have m: "mset [3, 1, 2 :: int] = mset [1, 2, 3]" by simp
  have m': "mset [PStr ''a'', PInt 1] = mset [PInt 1, PStr ''a'']" by simp
  obtain S1 :: "(int, int) Simplex" and h1 and S2 :: "(int, int) Simplex" and h2 where c:
    "Simplex_init [1, 2, 3 :: int] None True (Map.empty :: string \<rightharpoonup> int) 0 = Inr (S1, h1)"
    "Simplex_init [3, 1, 2 :: int] None True (Map.empty :: string \<rightharpoonup> int) h1 = Inr (S2, h2)"
    using Simplex_init_twice [of "[1, 2, 3 :: int]" "[3, 1, 2]" None True
        "Map.empty :: string \<rightharpoonup> int" 0 None True "Map.empty :: string \<rightharpoonup> int"]
    by auto
  define L1 :: "(pyobj, int) Simplex" where "L1 = Simplex 0 [] False {PInt 1, PStr ''a''} [] Map.empty"
  define L2 :: "(pyobj, int) Simplex" where "L2 = Simplex 1 [] False {PInt 1, PStr ''a''} [] Map.empty"
  have l1: "Simplex_leaf [PInt 1, PStr ''a''] None (Map.empty :: string \<rightharpoonup> int) 0 = Inr (L1, 1)"
    by (simp add: Simplex_leaf_def L1_def)
  have l2: "Simplex_leaf [PStr ''a'', PInt 1] None (Map.empty :: string \<rightharpoonup> int) 1 = Inr (L2, 2)"
    by (simp add: Simplex_leaf_def L2_def insert_commute)
  note spec = Simplex_permutation [of "[3, 1, 2 :: int]" "[1, 2, 3]" None True
      "Map.empty :: string \<rightharpoonup> int" 0 S1 h1 h1 None True "Map.empty :: string \<rightharpoonup> int" S2 h2
      "[PStr ''a'', PInt 1]" "[PInt 1, PStr ''a'']" None "Map.empty :: string \<rightharpoonup> int" 0 L1 1 1
      None "Map.empty :: string \<rightharpoonup> int" L2 2]
  from spec m c have A: "nodes S1 = nodes S2 \<and> \<not> Simplex_eq S1 S2 \<and>
      Simplex_hash S1 \<noteq> Simplex_hash S2 \<and> set_add S2 (set_add S1 []) = [S1, S2]"
    by simp
  from spec m' l1 l2 have B: "nodes L1 = nodes L2 \<and> \<not> Simplex_eq L1 L2 \<and>
      Simplex_hash L1 \<noteq> Simplex_hash L2 \<and> set_add L2 (set_add L1 []) = [L1, L2]"
    by simp
  from c m A have P: "\<exists>S1 h1 S2 h2.
      Simplex_init [1, 2, 3 :: int] None True (Map.empty :: string \<rightharpoonup> int) 0 = Inr (S1, h1) \<and>
      Simplex_init [3, 1, 2 :: int] None True (Map.empty :: string \<rightharpoonup> int) h1 = Inr (S2, h2) \<and>
      mset [3, 1, 2 :: int] = mset [1, 2, 3] \<and>
      nodes S1 = nodes S2 \<and> \<not> Simplex_eq S1 S2 \<and> Simplex_hash S1 \<noteq> Simplex_hash S2 \<and>
      set_add S2 (set_add S1 []) = [S1, S2]"
    by (intro exI [of _ S1] exI [of _ h1] exI [of _ S2] exI [of _ h2]) simp
  from l1 l2 m' B have Q: "\<exists>L1 g1 L2 g2.
      Simplex_leaf [PInt 1, PStr ''a''] None (Map.empty :: string \<rightharpoonup> int) 0 = Inr (L1, g1) \<and>
      Simplex_leaf [PStr ''a'', PInt 1] None (Map.empty :: string \<rightharpoonup> int) g1 = Inr (L2, g2) \<and>
      mset [PStr ''a'', PInt 1] = mset [PInt 1, PStr ''a''] \<and>
      nodes L1 = nodes L2 \<and> \<not> Simplex_eq L1 L2 \<and> Simplex_hash L1 \<noteq> Simplex_hash L2 \<and>
      set_add L2 (set_add L1 []) = [L1, L2]"
    by (intro exI [of _ L1] exI [of _ 1] exI [of _ L2] exI [of _ 2]) simp
  from P Q show ?thesis by (rule conjI)
qed

subsection \<open>Membership\<close>

lemma Simplex_123:
  "Simplex_leaf [PInt 1, PInt 2, PInt 3] None (Map.empty :: string \<rightharpoonup> int) 0 =
     Inr (Simplex 0 [] False {PInt 1, PInt 2, PInt 3} [] Map.empty, 1)"
  by (simp add: Simplex_leaf_def)

text \<open>
  Claim C2 asks for True on a bare node of the simplex and on every set-like subset
  of the node set. On \<open>Simplex((1, 2, 3), construct_tree=False)\<close> the test
  \<open>1 in S\<close> is False, and so is the test of the subset \<open>{1, 2}\<close>, as a frozenset
  and as a set.
\<close>

theorem contains_counterexample:
  "and_then (Simplex_leaf [PInt 1, PInt 2, PInt 3] None (Map.empty :: string \<rightharpoonup> int) 0)
     (\<lambda>(S, h). contains S (PInt 1)) = Inr False \<and>
   and_then (Simplex_leaf [PInt 1, PInt 2, PInt 3] None (Map.empty :: string \<rightharpoonup> int) 0)
     (\<lambda>(S, h). contains S (PFrozenset {|PInt 1, PInt 2|})) = Inr False \<and>
   and_then (Simplex_leaf [PInt 1, PInt 2, PInt 3] None (Map.empty :: string \<rightharpoonup> int) 0)
     (\<lambda>(S, h). contains S (PSet {|PInt 1, PInt 2|})) = Inr False"
  by (simp add: Simplex_123 and_then_def contains_def fcard_finsert_if)

lemma contains_iterable:
  assumes "finite (nodes S)" "nodes S \<noteq> {}" "is_Iterable e" "py_len e = Inr n"
  shows "contains S e =
     (if n \<noteq> 1 then Inr False
      else case frozenset_of e of
             Inl err \<Rightarrow> (case e of PFrozenset fs \<Rightarrow> Inr (fset fs \<subseteq> nodes S) | _ \<Rightarrow> Inl err)
           | Inr fs \<Rightarrow> Inr (fs \<subseteq> nodes S))"
proof -
  have c: "card (nodes S) \<noteq> 0" using assms(1,2) by simp
  show ?thesis
    using assms(3,4) c
    by (cases e) (auto simp: contains_def frozenset_of_def split: sum.splits)
qed

text \<open>
  What the test does on a bare integer: it looks for the frozenset \<open>{e}\<close> among the
  nodes.
\<close>

lemma contains_bare_int:
  assumes "finite (nodes S)" "nodes S \<noteq> {}"
  shows "contains S (PInt i) = Inr (PFrozenset {|PInt i|} \<in> nodes S)"
  using assms by (simp add: contains_def)

text \<open>
  Claim C2, amended. For a non-empty Simplex \<open>S\<close>: \<open>e in S\<close> is True when \<open>e\<close> is a
  tuple, list, set or frozenset with one item that is a node of \<open>S\<close>; for every sized
  iterable of length 1 whose items can be hashed it is True exactly when the items
  form a subset of the node set; and it is False, nothing raised, for every sized
  iterable whose length is not 1, subsets of the node set with two or more nodes
  included. Nothing is said about a bare node.
\<close>

theorem contains_spec:
  assumes "finite (nodes S)" and "nodes S \<noteq> {}"
  shows "(\<forall>x \<in> nodes S. hashable x \<longrightarrow>
            contains S (PTuple [x]) = Inr True \<and>
            contains S (PList [x]) = Inr True \<and>
            contains S (PSet {|x|}) = Inr True \<and>
            contains S (PFrozenset {|x|}) = Inr True) \<and>
         (\<forall>e fs. is_Iterable e \<and> py_len e = Inr 1 \<and> frozenset_of e = Inr fs \<longrightarrow>
            contains S e = Inr (fs \<subseteq> nodes S)) \<and>
         (\<forall>e n. is_Iterable e \<and> py_len e = Inr n \<and> n \<noteq> 1 \<longrightarrow>
            contains S e = Inr False)"
proof (intro conjI ballI allI impI)
  fix x assume x: "x \<in> nodes S" "hashable x"
  show "contains S (PTuple [x]) = Inr True"
    using x contains_iterable [OF assms, of "PTuple [x]" 1] by (simp add: frozenset_of_def)
  show "contains S (PList [x]) = Inr True"
    using x contains_iterable [OF assms, of "PList [x]" 1] by (simp add: frozenset_of_def)
  show "contains S (PSet {|x|}) = Inr True"
    using x contains_iterable [OF assms, of "PSet {|x|}" 1] by (simp add: frozenset_of_def fcard_finsert_if)
  show "contains S (PFrozenset {|x|}) = Inr True"
    using x contains_iterable [OF assms, of "PFrozenset {|x|}" 1] by (simp add: frozenset_of_def fcard_finsert_if)
next
  fix e fs assume "is_Iterable e \<and> py_len e = Inr 1 \<and> frozenset_of e = Inr fs"
  then show "contains S e = Inr (fs \<subseteq> nodes S)"
    using contains_iterable [OF assms, of e 1] by simp
next
  fix e n assume "is_Iterable e \<and> py_len e = Inr n \<and> n \<noteq> 1"
  then show "contains S e = Inr False"
    using contains_iterable [OF assms, of e n] by simp
qed

theorem contains_spec_witness:
  "(\<exists>S h. Simplex_leaf [PInt 1, PInt 2, PInt 3] None (Map.empty :: string \<rightharpoonup> int) 0 = Inr (S, h) \<and>
      finite (nodes S) \<and> nodes S \<noteq> {} \<and>
      contains S (PTuple [PInt 1]) = Inr True \<and>
      contains S (PList [PInt 2]) = Inr True \<and>
      contains S (PSet {|PInt 3|}) = Inr True \<and>
      contains S (PFrozenset {|PInt 3|}) = Inr True \<and>
      contains S (PTuple [PInt 4]) = Inr False \<and>
      contains S (PTuple [PInt 1, PInt 2]) = Inr False \<and>
      contains S (PTuple []) = Inr False)"
proof -
  define S :: "(pyobj, int) Simplex" where
    "S = Simplex 0 [] False {PInt 1, PInt 2, PInt 3} [] Map.empty"
  have n: "nodes S = {PInt 1, PInt 2, PInt 3}" by (simp add: S_def)
  have f: "finite (nodes S)" and ne: "nodes S \<noteq> {}" by (simp_all add: n)
  note spec = contains_spec [OF f ne]
  from spec have one: "hashable x \<Longrightarrow> x \<in> nodes S \<Longrightarrow>
      contains S (PTuple [x]) = Inr True \<and> contains S (PList [x]) = Inr True \<and>
      contains S (PSet {|x|}) = Inr True \<and> contains S (PFrozenset {|x|}) = Inr True" for x
    by blast
  from spec have sub: "is_Iterable e \<Longrightarrow> py_len e = Inr 1 \<Longrightarrow> frozenset_of e = Inr fs \<Longrightarrow>
      contains S e = Inr (fs \<subseteq> nodes S)" for e fs
    by blast
  from spec have len: "is_Iterable e \<Longrightarrow> py_len e = Inr n \<Longrightarrow> n \<noteq> 1 \<Longrightarrow>
      contains S e = Inr False" for e n
    by blast
  have a: "contains S (PTuple [PInt 1]) = Inr True" using one [of "PInt 1"] by (simp add: n)
  have b: "contains S (PList [PInt 2]) = Inr True" using one [of "PInt 2"] by (simp add: n)
  have c: "contains S (PSet {|PInt 3|}) = Inr True" using one [of "PInt 3"] by (simp add: n)
  have d: "contains S (PFrozenset {|PInt 3|}) = Inr True" using one [of "PInt 3"] by (simp add: n)
  have e: "contains S (PTuple [PInt 4]) = Inr False"
    using sub [of "PTuple [PInt 4]" "{PInt 4}"] by (simp add: n frozenset_of_def)
  have g: "contains S (PTuple [PInt 1, PInt 2]) = Inr False"
    using len [of "PTuple [PInt 1, PInt 2]" 2] by simp
  have i: "contains S (PTuple []) = Inr False"
    using len [of "PTuple []" 0] by simp
  have "Simplex_leaf [PInt 1, PInt 2, PInt 3] None (Map.empty :: string \<rightharpoonup> int) 0 = Inr (S, 1)"
    by (simp add: Simplex_123 S_def)
  with f ne a b c d e g i show ?thesis by blast
qed

end
